theory Spec2Isabelle
  imports Main "HOL-Library.Char_ord" "HOL-Library.List_Lexorder"
begin

section \<open>Python values shared by the embedded functions\<close>

text \<open>
  A Python \<open>dict\<close> keeps its keys in insertion order, and assigning to a key that is
  already present keeps that key's position. It is modelled as an association list;
  \<open>map_of\<close> is the lookup and \<open>dict_set\<close> is the assignment \<open>d[k] = v\<close>.
\<close>

type_synonym ('k, 'v) dict = "('k \<times> 'v) list"

fun dict_set :: "'k \<Rightarrow> 'v \<Rightarrow> ('k, 'v) dict \<Rightarrow> ('k, 'v) dict" where
  "dict_set k v [] = [(k, v)]"
| "dict_set k v ((k', v') # ps) = (if k' = k then (k', v) # ps else (k', v') # dict_set k v ps)"

text \<open>\<open>c[k] += 1\<close> on a \<open>Counter\<close>, where a missing key counts 0.\<close>

definition counter_incr :: "'k \<Rightarrow> ('k, int) dict \<Rightarrow> ('k, int) dict" where
  "counter_incr k c = dict_set k ((case map_of c k of None \<Rightarrow> 0 | Some n \<Rightarrow> n) + 1) c"

text \<open>
  The value of an optional key of a dict that was read from JSON or YAML, where the
  code tells a missing key from a key whose value is \<open>None\<close> (\<open>null\<close>).
\<close>

datatype 'a key_value = Absent | IsNone | Has 'a

text \<open>The exceptions that the embedded functions raise.\<close>

datatype py_error =
  KeyError | ValueError | IndexError | ZeroDivisionError | AssertionError | TypeError
  | AttributeError | FileExistsError | UnicodeDecodeError

section \<open>\<open>src/config/experiments.py\<close>: \<open>merge\<close>\<close>

text \<open>
  The values of an override tree: a nested \<open>dict\<close> with string keys, or any other
  Python value (\<open>Leaf\<close>). The type of the leaves is left open.
\<close>

datatype 'a pyval = Leaf 'a | Dict "(string \<times> 'a pyval) list"

text \<open>
  The test \<open>a[key] == b[key]\<close> of \<open>merge\<close>, reached only when the two values are not
  both dicts. \<open>eq\<close> is Python's \<open>==\<close> on the values that are not dicts; a dict is never
  equal to a value that is not one.
\<close>

fun same_leaf_value :: "('a \<Rightarrow> 'a \<Rightarrow> bool) \<Rightarrow> 'a pyval \<Rightarrow> 'a pyval \<Rightarrow> bool" where
  "same_leaf_value eq (Leaf x) (Leaf y) = eq x y"
| "same_leaf_value eq _ _ = False"

text \<open>
  \<open>merge(a, b)\<close>: the loop \<open>for key in b\<close> is the recursion over the entries of \<open>b\<close>,
  the dict \<open>a\<close> that the source mutates in place is passed along and returned. The
  \<open>path\<close> argument of the source is never read and is left out.
\<close>

fun merge :: "('a \<Rightarrow> 'a \<Rightarrow> bool) \<Rightarrow> (string, 'a pyval) dict \<Rightarrow> (string, 'a pyval) dict
    \<Rightarrow> (string, 'a pyval) dict" where
  "merge eq a [] = a"
| "merge eq a ((key, bv) # b) =
     merge eq
       (case map_of a key of
          None \<Rightarrow> dict_set key bv a
        | Some av \<Rightarrow>
            (case (av, bv) of
               (Dict ad, Dict bd) \<Rightarrow> dict_set key (Dict (merge eq ad bd)) a
             | _ \<Rightarrow> if same_leaf_value eq av bv then a else dict_set key bv a))
       b"

text \<open>One iteration of the loop of \<open>merge\<close>.\<close>

definition merge_step :: "('a \<Rightarrow> 'a \<Rightarrow> bool) \<Rightarrow> (string, 'a pyval) dict \<Rightarrow> string \<Rightarrow> 'a pyval
    \<Rightarrow> (string, 'a pyval) dict" where
  "merge_step eq a key bv =
     (case map_of a key of
        None \<Rightarrow> dict_set key bv a
      | Some av \<Rightarrow>
          (case (av, bv) of
             (Dict ad, Dict bd) \<Rightarrow> dict_set key (Dict (merge eq ad bd)) a
           | _ \<Rightarrow> if same_leaf_value eq av bv then a else dict_set key bv a))"

section \<open>\<open>src/config/experiments.py\<close>: \<open>get_all_ablation_combinations\<close>\<close>

text \<open>
  An override dict is a nested dict of values. An entry of \<open>ablation_list\<close> is a dict
  whose first key is the name of the ablation; the value under that key is a dict from
  the names of the ablation's values to the override dict of each.
\<close>

type_synonym 'a overrides = "(string, 'a pyval) dict"
type_synonym 'a ablation = "(string, (string, 'a overrides) dict) dict"




text \<open>\<open>d.update(e)\<close>: every entry of \<open>e\<close> is assigned into \<open>d\<close>, in the order of \<open>e\<close>.\<close>

definition dict_update :: "('k, 'v) dict \<Rightarrow> ('k, 'v) dict \<Rightarrow> ('k, 'v) dict" where
  "dict_update d e = fold (\<lambda>(k, v). dict_set k v) e d"

text \<open>
  \<open>copy.deepcopy\<close>. The values of the embedding are immutable, so a copy is the value
  itself; what the copy protects in the source, the dicts of the caller, cannot be
  written by any function here.
\<close>

definition deepcopy :: "'a \<Rightarrow> 'a" where
  "deepcopy x = x"



text \<open>\<open>sep.join(xs)\<close> on a list of strings.\<close>

fun join :: "string \<Rightarrow> string list \<Rightarrow> string" where
  "join sep [] = []"
| "join sep [x] = x"
| "join sep (x # y # ys) = x @ sep @ join sep (y # ys)"




section \<open>\<open>src/data/parse_so/dump_parsing.py\<close>: the first pass\<close>

text \<open>
  The values of the result dict of \<open>parse_line\<close>, which is written as a JSON line, and
  of the lines that are read back: null, integers, strings, lists of strings and dicts.
\<close>

datatype json = JNone | JInt int | JStr string | JList "string list" | JDict "(json \<times> json) list"

text \<open>
  \<open>s.split(sep)\<close> for a separator of one character, \<open>s.replace(c, '')\<close> and \<open>s.strip()\<close>.
  A \<open>string\<close> holds the characters below 256; \<open>isspace\<close> is \<open>str.isspace\<close> on them, which
  besides the ASCII whitespace holds of U+001C to U+001F, U+0085 and U+00A0.
\<close>

fun split_loop :: "char \<Rightarrow> string \<Rightarrow> string \<Rightarrow> string list" where
  "split_loop sep current [] = [current]"
| "split_loop sep current (c # rest) =
     (if c = sep then current # split_loop sep [] rest
      else split_loop sep (current @ [c]) rest)"

definition split :: "char \<Rightarrow> string \<Rightarrow> string list" where
  "split sep s = split_loop sep [] s"

definition isspace :: "char \<Rightarrow> bool" where
  "isspace c \<longleftrightarrow> c \<in> set [CHR '' '', CHR 0x09, CHR 0x0A, CHR 0x0B, CHR 0x0C, CHR 0x0D,
                          CHR 0x1C, CHR 0x1D, CHR 0x1E, CHR 0x1F, CHR 0x85, CHR 0xA0]"

definition strip :: "string \<Rightarrow> string" where
  "strip s = rev (dropWhile isspace (rev (dropWhile isspace s)))"

definition post_tags_of :: "string \<Rightarrow> string list" where
  "post_tags_of tags_attr =
     map (\<lambda>t. strip (removeAll (CHR ''<'') t)) (filter (\<lambda>t. strip t \<noteq> []) (split (CHR ''>'') tags_attr))"

text \<open>
  \<open>int(s)\<close> for an attribute \<open>s\<close>: the parameter \<open>to_int\<close> gives the integer, or \<open>None\<close> when
  \<open>int\<close> raises \<open>ValueError\<close>. \<open>int(post_dict.get(k, 0))\<close> is 0 without the attribute.
\<close>

definition int_of_attr :: "(string \<Rightarrow> int option) \<Rightarrow> string \<Rightarrow> py_error + int" where
  "int_of_attr to_int s = (case to_int s of None \<Rightarrow> Inl ValueError | Some n \<Rightarrow> Inr n)"

definition int_of_get :: "(string \<Rightarrow> int option) \<Rightarrow> (string, string) dict \<Rightarrow> string \<Rightarrow> py_error + int" where
  "int_of_get to_int post_dict k =
     (case map_of post_dict k of None \<Rightarrow> Inr 0 | Some s \<Rightarrow> int_of_attr to_int s)"

text \<open>\<open>post_dict[k]\<close>, which raises \<open>KeyError\<close> when the row has no attribute \<open>k\<close>.\<close>

definition attrib :: "(string, string) dict \<Rightarrow> string \<Rightarrow> py_error + string" where
  "attrib post_dict k = (case map_of post_dict k of None \<Rightarrow> Inl KeyError | Some s \<Rightarrow> Inr s)"

definition json_of_get :: "(string, string) dict \<Rightarrow> string \<Rightarrow> json" where
  "json_of_get post_dict k = (case map_of post_dict k of None \<Rightarrow> JNone | Some s \<Rightarrow> JStr s)"

text \<open>
  The part of \<open>parse_line\<close> for a question, after the first \<open>result.update\<close>.
\<close>

definition parse_question ::
  "(string \<Rightarrow> int option) \<Rightarrow> (string \<Rightarrow> string) \<Rightarrow> (string, string) dict \<Rightarrow> (string, json) dict
     \<Rightarrow> py_error + (string, json) dict" where
  "parse_question to_int unidecode post_dict result_dict =
     (case attrib post_dict ''Tags'' of
        Inl e \<Rightarrow> Inl e
      | Inr tags_attr \<Rightarrow>
          (let post_tags = post_tags_of tags_attr in
           case map_of post_dict ''Title'' of
             None \<Rightarrow> Inr (dict_set ''result'' (JStr ''NO_TITLE'') result_dict)
           | Some title \<Rightarrow>
               if title = [] then Inr (dict_set ''result'' (JStr ''NO_TITLE'') result_dict)
               else
                 (case int_of_get to_int post_dict ''AnswerCount'' of
                    Inl e \<Rightarrow> Inl e
                  | Inr answer_count \<Rightarrow>
                      (case int_of_get to_int post_dict ''ViewCount'' of
                         Inl e \<Rightarrow> Inl e
                       | Inr views \<Rightarrow>
                           Inr (dict_update result_dict
                             [(''tags'', JList post_tags),
                              (''title'', JStr (unidecode title)),
                              (''answer_count'', JInt answer_count),
                              (''views'', JInt views),
                              (''accepted_answer'', json_of_get post_dict ''AcceptedAnswerId'')])))))"

text \<open>
  \<open>parse_line\<close>. The line is given by what \<open>etree.XML(line).attrib\<close> makes of it: \<open>None\<close>
  when it raises, the attributes of the row otherwise. \<open>unidecode\<close> is a parameter.
\<close>

definition parse_line ::
  "(string \<Rightarrow> int option) \<Rightarrow> (string \<Rightarrow> string) \<Rightarrow> int \<Rightarrow> (string, string) dict option
     \<Rightarrow> py_error + (string, json) dict" where
  "parse_line to_int unidecode line_number line =
     (let result = [(''line'', JInt line_number), (''body'', JNone), (''result'', JStr ''PASS'')] in
      case line of
        None \<Rightarrow> Inr (dict_set ''result'' (JStr ''PARSE_FAIL'') result)
      | Some post_dict \<Rightarrow>
          (case attrib post_dict ''PostTypeId'' of
             Inl e \<Rightarrow> Inl e
           | Inr type_attr \<Rightarrow>
               (case to_int type_attr of
                  None \<Rightarrow> Inr (dict_set ''result'' (JStr ''PARSE_FAIL'') result)
                | Some post_type \<Rightarrow>
                    if post_type \<notin> set [1, 2, 4, 5] then
                      Inr (dict_set ''result'' (JStr ''NOT_VALID_TYPE'') result)
                    else
                      (case attrib post_dict ''Body'' of
                         Inl e \<Rightarrow> Inl e
                       | Inr body \<Rightarrow>
                           if body = [] then Inr (dict_set ''result'' (JStr ''NO_BODY'') result)
                           else
                             (case attrib post_dict ''Id'' of
                                Inl e \<Rightarrow> Inl e
                              | Inr post_id \<Rightarrow>
                             (case attrib post_dict ''CreationDate'' of
                                Inl e \<Rightarrow> Inl e
                              | Inr date \<Rightarrow>
                             (case attrib post_dict ''Score'' of
                                Inl e \<Rightarrow> Inl e
                              | Inr score_attr \<Rightarrow>
                             (case int_of_attr to_int score_attr of
                                Inl e \<Rightarrow> Inl e
                              | Inr score \<Rightarrow>
                             (case int_of_get to_int post_dict ''CommentCount'' of
                                Inl e \<Rightarrow> Inl e
                              | Inr comment_count \<Rightarrow>
                                  (let result = dict_update result
                                         [(''body'', JStr (unidecode body)),
                                          (''type'', JInt post_type),
                                          (''id'', JStr post_id),
                                          (''date'', JStr date),
                                          (''score'', JInt score),
                                          (''comment_count'', JInt comment_count)]
                                   in if post_type = 1
                                      then parse_question to_int unidecode post_dict result
                                      else Inr (dict_update result
                                             [(''parent_id'', json_of_get post_dict ''ParentId'')])))))))))))"

text \<open>
  The state of \<open>initial_parse_dump\<close>: \<open>question_overview_data\<close>, the three counters, and
  for every key of \<open>post_type_to_file\<close> the records written to its file.
\<close>

record first_pass =
  overview_data :: "(json, (string, json) dict) dict"
  failures_counts :: "(json, int) dict"
  post_type_counter :: "(string, int) dict"
  tag_counter :: "(json, int) dict"
  post_type_to_file :: "(json, (string, json) dict list) dict"

text \<open>\<open>d[k]\<close> on a result dict.\<close>

definition getitem :: "('k, 'v) dict \<Rightarrow> 'k \<Rightarrow> py_error + 'v" where
  "getitem d k = (case map_of d k of None \<Rightarrow> Inl KeyError | Some v \<Rightarrow> Inr v)"

text \<open>
  \<open>for t in parsed['tags']: tag_counts[t] += 1\<close>: a list is iterated by its elements,
  a string by its characters, a dict by its keys, and \<open>None\<close> and an integer raise
  \<open>TypeError\<close>.
\<close>

definition count_tags :: "json \<Rightarrow> (json, int) dict \<Rightarrow> py_error + (json, int) dict" where
  "count_tags ts c =
     (case ts of
        JList xs \<Rightarrow> Inr (fold counter_incr (map JStr xs) c)
      | JStr s \<Rightarrow> Inr (fold counter_incr (map (\<lambda>ch. JStr [ch]) s) c)
      | JDict kvs \<Rightarrow> Inr (fold counter_incr (map fst kvs) c)
      | _ \<Rightarrow> Inl TypeError)"

text \<open>
  The entry of \<open>question_overview_data\<close> for a question.
\<close>

definition question_overview :: "(string, json) dict \<Rightarrow> py_error + (string, json) dict" where
  "question_overview parsed =
     (case getitem parsed ''tags'' of Inl e \<Rightarrow> Inl e | Inr ts \<Rightarrow>
      case getitem parsed ''score'' of Inl e \<Rightarrow> Inl e | Inr score \<Rightarrow>
      case getitem parsed ''views'' of Inl e \<Rightarrow> Inl e | Inr views \<Rightarrow>
      case getitem parsed ''answer_count'' of Inl e \<Rightarrow> Inl e | Inr answer_count \<Rightarrow>
      case getitem parsed ''accepted_answer'' of Inl e \<Rightarrow> Inl e | Inr accepted_answer \<Rightarrow>
        Inr [(''tags'', ts), (''score'', score), (''views'', views),
             (''answer_count'', answer_count), (''accepted_answer'', accepted_answer)])"

text \<open>
  The body of the loop of \<open>initial_parse_dump\<close> for one parsed line. The table
  \<open>POST_TYPE_TO_STR\<close> of \<open>src/data/parse_so/util.py\<close> is a parameter.
\<close>

definition first_pass_step ::
  "(json, string) dict \<Rightarrow> (string, json) dict \<Rightarrow> first_pass \<Rightarrow> py_error + first_pass" where
  "first_pass_step POST_TYPE_TO_STR parsed st =
     (case getitem parsed ''result'' of
        Inl e \<Rightarrow> Inl e
      | Inr r \<Rightarrow>
          if r \<noteq> JStr ''PASS'' then
            Inr (st\<lparr>failures_counts := counter_incr r (failures_counts st)\<rparr>)
          else
            (case getitem parsed ''type'' of Inl e \<Rightarrow> Inl e | Inr ty \<Rightarrow>
             case getitem POST_TYPE_TO_STR ty of Inl e \<Rightarrow> Inl e | Inr type_name \<Rightarrow>
             case getitem (post_type_to_file st) ty of Inl e \<Rightarrow> Inl e | Inr written \<Rightarrow>
               (let st = st\<lparr>post_type_counter := counter_incr type_name (post_type_counter st),
                           post_type_to_file :=
                             dict_set ty (written @ [parsed]) (post_type_to_file st)\<rparr>
                in if ty = JInt 1 then
                     (case getitem parsed ''id'' of Inl e \<Rightarrow> Inl e | Inr qid \<Rightarrow>
                      case question_overview parsed of Inl e \<Rightarrow> Inl e | Inr ov \<Rightarrow>
                      case getitem parsed ''tags'' of Inl e \<Rightarrow> Inl e | Inr ts \<Rightarrow>
                      case count_tags ts (tag_counter st) of Inl e \<Rightarrow> Inl e | Inr c \<Rightarrow>
                        Inr (st\<lparr>overview_data := dict_set qid ov (overview_data st),
                                tag_counter := c\<rparr>))
                   else Inr st)))"

text \<open>
  The loop over \<open>read_dump\<close>, which parses the lines one by one and numbers them from 0.
\<close>

fun first_pass_loop ::
  "(string \<Rightarrow> int option) \<Rightarrow> (string \<Rightarrow> string) \<Rightarrow> (json, string) dict \<Rightarrow> int
     \<Rightarrow> (string, string) dict option list \<Rightarrow> first_pass \<Rightarrow> py_error + first_pass" where
  "first_pass_loop to_int unidecode POST_TYPE_TO_STR line_num [] st = Inr st"
| "first_pass_loop to_int unidecode POST_TYPE_TO_STR line_num (line # rest) st =
     (case parse_line to_int unidecode line_num line of
        Inl e \<Rightarrow> Inl e
      | Inr parsed \<Rightarrow>
          (case first_pass_step POST_TYPE_TO_STR parsed st of
             Inl e \<Rightarrow> Inl e
           | Inr st' \<Rightarrow>
               first_pass_loop to_int unidecode POST_TYPE_TO_STR (line_num + 1) rest st'))"

text \<open>
  A line of the dump file, which the function reads twice. It first counts the lines
  with \<open>dump_path.open()\<close>, which decodes strictly in the default encoding and raises
  \<open>UnicodeDecodeError\<close> on a line that does not decode: \<open>strict_decodes\<close> says whether the
  line does. \<open>read_dump\<close> then opens the file with \<open>errors='replace'\<close>, which decodes every
  line: \<open>xml_attrib\<close> is what \<open>etree.XML(line).attrib\<close> makes of the line so decoded.
\<close>

record dump_line =
  strict_decodes :: bool
  xml_attrib :: "(string, string) dict option"

text \<open>
  \<open>initial_parse_dump\<close> on the lines of the dump: the count of all the lines, then the
  loop. In debug mode \<open>read_dump\<close> stops after 2500 lines.
\<close>

definition initial_parse_dump ::
  "(string \<Rightarrow> int option) \<Rightarrow> (string \<Rightarrow> string) \<Rightarrow> (json, string) dict
     \<Rightarrow> dump_line list \<Rightarrow> bool \<Rightarrow> py_error + first_pass" where
  "initial_parse_dump to_int unidecode POST_TYPE_TO_STR dump debug =
     (if \<not> list_all strict_decodes dump then Inl UnicodeDecodeError
      else
        first_pass_loop to_int unidecode POST_TYPE_TO_STR 0
          (map xml_attrib (if debug then take 2500 dump else dump))
          \<lparr>overview_data = [], failures_counts = [], post_type_counter = [], tag_counter = [],
           post_type_to_file = map (\<lambda>kv. (fst kv, [])) POST_TYPE_TO_STR\<rparr>)"

text \<open>
  A row that has the attributes that \<open>parse_line\<close> reads without a default, as integers
  where it converts them, and \<open>Tags\<close> when it is a question.
\<close>

definition well_formed_row :: "(string \<Rightarrow> int option) \<Rightarrow> (string, string) dict \<Rightarrow> bool" where
  "well_formed_row to_int post_dict \<longleftrightarrow>
     list_all (\<lambda>k. map_of post_dict k \<noteq> None)
       [''PostTypeId'', ''Body'', ''Id'', ''CreationDate'', ''Score'']
     \<and> (case map_of post_dict ''Score'' of None \<Rightarrow> False | Some s \<Rightarrow> to_int s \<noteq> None)
     \<and> list_all (\<lambda>k. case map_of post_dict k of None \<Rightarrow> True | Some s \<Rightarrow> to_int s \<noteq> None)
       [''CommentCount'', ''AnswerCount'', ''ViewCount'']
     \<and> (case map_of post_dict ''PostTypeId'' of
          None \<Rightarrow> False
        | Some type_attr \<Rightarrow> to_int type_attr = Some 1 \<longrightarrow> map_of post_dict ''Tags'' \<noteq> None)"

text \<open>
  For the examples, \<open>int(s)\<close> on a string of characters below 256: whitespace around the
  number is stripped, a sign may come first, and the digits may be separated by single
  underscores. \<open>None\<close> stands for \<open>ValueError\<close>.
\<close>

definition isdigit :: "char \<Rightarrow> bool" where
  "isdigit c \<longleftrightarrow> c \<in> set ''0123456789''"

definition digit_value :: "char \<Rightarrow> nat" where
  "digit_value c = of_char c - 48"

fun digits_loop :: "nat \<Rightarrow> string \<Rightarrow> nat option" where
  "digits_loop n [] = Some n"
| "digits_loop n [c] = (if isdigit c then Some (10 * n + digit_value c) else None)"
| "digits_loop n (c # d # rest) =
     (if isdigit c then digits_loop (10 * n + digit_value c) (d # rest)
      else if c = CHR ''_'' \<and> isdigit d then digits_loop n (d # rest)
      else None)"

definition digits :: "string \<Rightarrow> nat option" where
  "digits s = (case s of [] \<Rightarrow> None | c # rest \<Rightarrow> if isdigit c then digits_loop 0 s else None)"

definition py_int :: "string \<Rightarrow> int option" where
  "py_int s =
     (case strip s of
        [] \<Rightarrow> None
      | c # rest \<Rightarrow>
          if c = CHR ''-'' then map_option (\<lambda>n. - int n) (digits rest)
          else if c = CHR ''+'' then map_option int (digits rest)
          else map_option int (digits (c # rest)))"

text \<open>For the examples, a table of the four post types.\<close>

definition post_type_names :: "(json, string) dict" where
  "post_type_names =
     [(JInt 1, ''questions''), (JInt 2, ''answers''), (JInt 4, ''tag_wiki_excerpt''),
      (JInt 5, ''tag_wiki'')]"

section \<open>\<open>src/tutorials/html_parsers.py\<close>: \<open>TutorialHTMLParser\<close>\<close>

text \<open>
  The document that \<open>BeautifulSoup(raw_html, 'lxml')\<close> builds: a tree of tags and
  strings. A tag has its name, the list of its classes (\<open>None\<close> without a \<open>class\<close>
  attribute: bs4 keeps this attribute as a list), its other attributes, which are
  strings, and its children. \<open>Comment\<close> is a string that \<open>get_text\<close> leaves out; it is a
  \<open>NavigableString\<close> too.
\<close>

datatype element =
  NavigableString string
| Comment string
| Tag string "string list option" "(string, string) dict" "element list"

fun is_tag :: "element \<Rightarrow> bool" where
  "is_tag (Tag n cl at cs) = True"
| "is_tag _ = False"

fun name_of :: "element \<Rightarrow> string" where
  "name_of (Tag n cl at cs) = n"
| "name_of _ = []"

text \<open>\<open>tag.attrs.get('class', [])\<close>.\<close>

fun tag_classes_of :: "element \<Rightarrow> string list" where
  "tag_classes_of (Tag n (Some cl) at cs) = cl"
| "tag_classes_of _ = []"

fun attrs_of :: "element \<Rightarrow> (string, string) dict" where
  "attrs_of (Tag n cl at cs) = at"
| "attrs_of _ = []"

fun children :: "element \<Rightarrow> element list" where
  "children (Tag n cl at cs) = cs"
| "children _ = []"

text \<open>
  \<open>tag.get_text()\<close> (and \<open>tag.text\<close>): the strings below the tag, in the order of the
  document.
\<close>

fun get_text :: "element \<Rightarrow> string" where
  "get_text (NavigableString s) = s"
| "get_text (Comment s) = []"
| "get_text (Tag n cl at cs) = concat (map get_text cs)"

text \<open>
  The tags below a tag, in the order of the document, which \<open>find\<close> and \<open>find_all\<close>
  search; \<open>find\<close> returns the first match, or \<open>None\<close>.
\<close>

fun descendants :: "element \<Rightarrow> element list" where
  "descendants (Tag n cl at cs) =
     concat (map (\<lambda>c. (if is_tag c then [c] else []) @ descendants c) cs)"
| "descendants _ = []"

definition find_all_named :: "string \<Rightarrow> element \<Rightarrow> element list" where
  "find_all_named n tag = filter (\<lambda>d. name_of d = n) (descendants tag)"

definition find_named :: "string \<Rightarrow> element \<Rightarrow> element option" where
  "find_named n tag = (case find_all_named n tag of [] \<Rightarrow> None | d # ds \<Rightarrow> Some d)"

text \<open>
  The match of \<open>{'class': c}\<close>: one of the classes of the tag is \<open>c\<close>, or the whole
  attribute is.
\<close>

definition has_class :: "string \<Rightarrow> element \<Rightarrow> bool" where
  "has_class c tag \<longleftrightarrow>
     (case tag of
        Tag n (Some cl) at cs \<Rightarrow> c \<in> set cl \<or> join '' '' cl = c
      | _ \<Rightarrow> False)"

text \<open>
  \<open>header_link.extract()\<close> of \<open>parse_title\<close> takes the first tag of a name out of the
  tree. The functions give the tag without it, or \<open>None\<close> when no tag below has the name.
  The header that is changed so is read for its text only, and a soup is made anew for
  every call of the parser.
\<close>

fun extract_first :: "string \<Rightarrow> element \<Rightarrow> element option"
  and extract_first_list :: "string \<Rightarrow> element list \<Rightarrow> element list option" where
  "extract_first n (Tag m cl at cs) = map_option (Tag m cl at) (extract_first_list n cs)"
| "extract_first n (NavigableString s) = None"
| "extract_first n (Comment s) = None"
| "extract_first_list n [] = None"
| "extract_first_list n (c # cs) =
     (if is_tag c \<and> name_of c = n then Some cs
      else
        (case extract_first n c of
           Some c' \<Rightarrow> Some (c' # cs)
         | None \<Rightarrow> map_option (\<lambda>cs'. c # cs') (extract_first_list n cs)))"

text \<open>
  \<open>x in s\<close> for strings, \<open>s.lstrip()\<close>, and \<open>DOUBLE_WHITESPACE.sub(' ', s)\<close>, which puts one
  space for every run of two whitespace characters or more.
\<close>

fun contains :: "string \<Rightarrow> string \<Rightarrow> bool" where
  "contains x [] = (x = [])"
| "contains x (c # s) = (take (length x) (c # s) = x \<or> contains x s)"

definition lstrip :: "string \<Rightarrow> string" where
  "lstrip s = dropWhile isspace s"

definition flush_run :: "string \<Rightarrow> string" where
  "flush_run run = (if length run \<ge> 2 then '' '' else run)"

fun squeeze_loop :: "string \<Rightarrow> string \<Rightarrow> string" where
  "squeeze_loop run [] = flush_run run"
| "squeeze_loop run (c # s) =
     (if isspace c then squeeze_loop (run @ [c]) s
      else flush_run run @ c # squeeze_loop [] s)"

definition double_whitespace_sub :: "string \<Rightarrow> string" where
  "double_whitespace_sub s = squeeze_loop [] s"

text \<open>
  The registered parsers, and the class attributes of \<open>TutorialHTMLParser\<close>, which no
  subclass overrides.
\<close>

datatype parser = LXMLParser | SympyParser | PassLibParser | PyNaClParser

fun NAME :: "parser \<Rightarrow> string" where
  "NAME LXMLParser = ''LXML''"
| "NAME SympyParser = ''sympy''"
| "NAME PassLibParser = ''passlib''"
| "NAME PyNaClParser = ''pynacl''"

definition PARAGRAPH_CLASSES :: "string list" where
  "PARAGRAPH_CLASSES =
     [''math'', ''admonition'', ''topic'', ''versionadded'', ''versionchanged'', ''note'',
      ''deprecated'']"

definition CODE_CLASSES :: "string list" where
  "CODE_CLASSES = [''doctest'', ''syntax'']"

definition IGNORED_CLASSES :: "string list" where
  "IGNORED_CLASSES = [''toctree-wrapper'', ''graphviz'']"

definition IGNORED_TAGS :: "string list" where
  "IGNORED_TAGS = [''figure'']"

datatype TagType = PARAGRAPH | CODE | SECTION | LIST | IGNORED | UNKNOWN

definition get_type_from_div_tag :: "element \<Rightarrow> TagType" where
  "get_type_from_div_tag tag =
     (let tag_classes = tag_classes_of tag in
      if list_ex (\<lambda>c. contains ''highlight-'' c) tag_classes then CODE
      else if list_ex (\<lambda>c. c \<in> set tag_classes) CODE_CLASSES then CODE
      else if list_ex (\<lambda>c. c \<in> set tag_classes) PARAGRAPH_CLASSES then PARAGRAPH
      else if list_ex (\<lambda>c. c \<in> set tag_classes) IGNORED_CLASSES then IGNORED
      else UNKNOWN)"

fun get_type_of_tag :: "parser \<Rightarrow> element \<Rightarrow> TagType" where
  "get_type_of_tag LXMLParser tag =
     (let tag_classes = tag_classes_of tag in
      if name_of tag = ''div'' then
        (if ''section'' \<in> set tag_classes then SECTION
         else if ''syntax'' \<in> set tag_classes then CODE
         else if ''note'' \<in> set tag_classes then PARAGRAPH
         else get_type_from_div_tag tag)
      else if name_of tag = ''pre'' then
        (if ''literal-block'' \<in> set tag_classes then CODE else UNKNOWN)
      else if name_of tag = ''p'' then PARAGRAPH
      else if name_of tag \<in> set [''ul'', ''ol'', ''blockquote''] then LIST
      else if name_of tag \<in> set [''table'', ''img'', ''dl''] then IGNORED
      else UNKNOWN)"
| "get_type_of_tag PassLibParser tag =
     (let tag_classes = tag_classes_of tag in
      if name_of tag = ''div'' then
        (if ''section'' \<in> set tag_classes then SECTION else get_type_from_div_tag tag)
      else if name_of tag = ''p'' then PARAGRAPH
      else if name_of tag \<in> set [''ul'', ''ol'', ''blockquote''] then LIST
      else if name_of tag \<in> set [''table'', ''img'', ''dl'', ''aside''] then IGNORED
      else UNKNOWN)"
| "get_type_of_tag p tag =
     (if name_of tag = ''section'' then SECTION
      else if name_of tag = ''div'' then get_type_from_div_tag tag
      else if name_of tag = ''p'' then PARAGRAPH
      else if name_of tag \<in> set [''ul'', ''ol'', ''blockquote''] then LIST
      else if name_of tag \<in> set [''table'', ''img'', ''dl'', ''aside''] then IGNORED
      else UNKNOWN)"

text \<open>
  \<open>get_header_and_sections\<close>, of which only the sections are used: the children of the
  body of the page that are sections. Without a body, \<open>body.find_all\<close> is called on
  \<open>None\<close> and raises \<open>AttributeError\<close>.
\<close>

definition find_body :: "parser \<Rightarrow> element \<Rightarrow> element option" where
  "find_body p soup =
     (case filter
             (\<lambda>d. name_of d = ''div''
                  \<and> (case p of
                       LXMLParser \<Rightarrow> has_class ''document'' d
                     | PyNaClParser \<Rightarrow> map_of (attrs_of d) ''itemprop'' = Some ''articleBody''
                     | _ \<Rightarrow> has_class ''body'' d))
             (descendants soup) of
        [] \<Rightarrow> None
      | d # ds \<Rightarrow> Some d)"

definition is_top_section :: "parser \<Rightarrow> element \<Rightarrow> bool" where
  "is_top_section p c \<longleftrightarrow>
     is_tag c
     \<and> (case p of
          LXMLParser \<Rightarrow> name_of c = ''div'' \<and> has_class ''section'' c
        | PassLibParser \<Rightarrow> name_of c = ''div'' \<and> has_class ''section'' c
        | _ \<Rightarrow> name_of c = ''section'')"

definition get_header_and_sections :: "parser \<Rightarrow> element \<Rightarrow> py_error + element list" where
  "get_header_and_sections p soup =
     (case find_body p soup of
        None \<Rightarrow> Inl AttributeError
      | Some body \<Rightarrow> Inr (filter (is_top_section p) (children body)))"

text \<open>
  The methods that make the text of a tag. \<open>clean_text\<close> is \<open>unidecode\<close>, a parameter.
  \<open>LXMLParser\<close> has the methods of the base class; the other parsers take the code from
  the first \<open>pre\<close> below the tag, which they assert to be there, and take the first link
  out of a title.
\<close>

definition parse_code :: "parser \<Rightarrow> (string \<Rightarrow> string) \<Rightarrow> element \<Rightarrow> py_error + string" where
  "parse_code p unidecode tag =
     (case p of
        LXMLParser \<Rightarrow> Inr (unidecode (get_text tag))
      | _ \<Rightarrow>
          (case find_named ''pre'' tag of
             None \<Rightarrow> Inl AssertionError
           | Some code_block \<Rightarrow> Inr (lstrip (unidecode (get_text code_block)))))"

definition parse_list :: "(string \<Rightarrow> string) \<Rightarrow> element \<Rightarrow> string" where
  "parse_list unidecode tag =
     unidecode (join [CHR 0x0A] (map (\<lambda>line. ''* '' @ get_text line) (find_all_named ''li'' tag)))"

definition parse_paragraph :: "(string \<Rightarrow> string) \<Rightarrow> element \<Rightarrow> string" where
  "parse_paragraph unidecode tag =
     double_whitespace_sub
       (map (\<lambda>c. if c = CHR 0x0A then CHR '' '' else c) (unidecode (get_text tag)))"

definition parse_title :: "parser \<Rightarrow> (string \<Rightarrow> string) \<Rightarrow> element \<Rightarrow> string" where
  "parse_title p unidecode tag =
     (case p of
        LXMLParser \<Rightarrow> unidecode (get_text tag)
      | _ \<Rightarrow>
          (case extract_first ''a'' tag of
             None \<Rightarrow> unidecode (get_text tag)
           | Some without_link \<Rightarrow> unidecode (get_text without_link)))"

text \<open>
  \<open>parse_section\<close> is a generator. Its run is the list of what it does in order: the
  pairs that it yields, the messages that it logs, and last the exception that it
  raises, if it raises one.
\<close>

datatype message =
  Skipping string nat
| Parsing_child string nat "string option" int
| Found_subsection "string option"
| Error_text string
| Error_attrs "string list option" "(string, string) dict"

datatype event = Yield int "(string, json) dict" | Log message | Raise py_error

fun is_raise :: "event \<Rightarrow> bool" where
  "is_raise (Raise e) = True"
| "is_raise _ = False"

definition raises :: "event list \<Rightarrow> bool" where
  "raises evs = list_ex is_raise evs"

text \<open>
  \<open>id_counter = child_idx\<close> for every pair that the generator of a subsection yields: the
  counter after the subsection is the index of its last pair, and the counter before it
  when it yields none.
\<close>

definition last_yield :: "event list \<Rightarrow> int \<Rightarrow> int" where
  "last_yield evs id_counter = fold (\<lambda>ev c. case ev of Yield child_idx child \<Rightarrow> child_idx | _ \<Rightarrow> c) evs id_counter"

definition header_tag :: "string list" where
  "header_tag =
     [''h0'', ''h1'', ''h2'', ''h3'', ''h4'', ''h5'', ''h6'', ''h7'', ''h8'', ''h9'', ''h10'',
      ''h11'', ''h12'', ''h13'', ''h14'']"

text \<open>
  \<open>parse_section\<close>, and its loop over \<open>enumerate(section.children)\<close> with the index \<open>i\<close>,
  the title found so far and the counter.
\<close>

fun parse_section ::
  "parser \<Rightarrow> (string \<Rightarrow> string) \<Rightarrow> element \<Rightarrow> int \<Rightarrow> int \<Rightarrow> event list"
  and children_loop ::
  "parser \<Rightarrow> (string \<Rightarrow> string) \<Rightarrow> string \<Rightarrow> int \<Rightarrow> int \<Rightarrow> nat \<Rightarrow> element list \<Rightarrow> string option \<Rightarrow> int
     \<Rightarrow> event list" where
  "parse_section p unidecode (Tag n cl at cs) parent_id id_counter =
     (case map_of at ''id'' of
        None \<Rightarrow> [Raise KeyError]
      | Some section_str_id \<Rightarrow>
          children_loop p unidecode section_str_id parent_id (id_counter + 1) 0 cs None
            (id_counter + 1))"
| "parse_section p unidecode (NavigableString s) parent_id id_counter = [Raise AttributeError]"
| "parse_section p unidecode (Comment s) parent_id id_counter = [Raise AttributeError]"
| "children_loop p unidecode section_str_id parent_id section_id i [] section_title id_counter = []"
| "children_loop p unidecode section_str_id parent_id section_id i (tag # rest) section_title
     id_counter =
     (if \<not> is_tag tag then
        children_loop p unidecode section_str_id parent_id section_id (i + 1) rest section_title
          id_counter
      else if name_of tag \<in> set header_tag then
        (if section_title \<noteq> None then [Raise AssertionError]
         else
           children_loop p unidecode section_str_id parent_id section_id (i + 1) rest
             (Some (parse_title p unidecode tag)) id_counter)
      else if name_of tag \<in> set IGNORED_TAGS then
        Log (Skipping (name_of tag) i)
          # children_loop p unidecode section_str_id parent_id section_id (i + 1) rest
              section_title id_counter
      else
        Log (Parsing_child (NAME p) i section_title parent_id)
          # (if get_type_of_tag p tag = SECTION then
               Log (Found_subsection section_title)
                 # (let sub = parse_section p unidecode tag section_id id_counter in
                    if raises sub then sub
                    else
                      sub @ children_loop p unidecode section_str_id parent_id section_id (i + 1)
                              rest section_title (last_yield sub id_counter))
             else if strip (unidecode (get_text tag)) = [] then
               children_loop p unidecode section_str_id parent_id section_id (i + 1) rest
                 section_title (id_counter - 1)
             else
               (case section_title of
                  None \<Rightarrow> [Raise ValueError]
                | Some title \<Rightarrow>
                    (let out = [(''id'', JInt (id_counter + 1)),
                                (''parent_id'', JInt parent_id),
                                (''section_id'', JInt section_id),
                                (''section_str_id'', JStr section_str_id),
                                (''child_idx'', JInt (int i)),
                                (''section_title'', JStr title)]
                     in case get_type_of_tag p tag of
                          PARAGRAPH \<Rightarrow>
                            Yield (id_counter + 1)
                              (out @ [(''text'', JStr (parse_paragraph unidecode tag)),
                                      (''tag'', JStr ''p'')])
                              # children_loop p unidecode section_str_id parent_id section_id
                                  (i + 1) rest section_title (id_counter + 1)
                        | CODE \<Rightarrow>
                            (case parse_code p unidecode tag of
                               Inl e \<Rightarrow> [Raise e]
                             | Inr code \<Rightarrow>
                                 Yield (id_counter + 1)
                                   (out @ [(''text'', JStr code), (''tag'', JStr ''code'')])
                                   # children_loop p unidecode section_str_id parent_id
                                       section_id (i + 1) rest section_title (id_counter + 1))
                        | LIST \<Rightarrow>
                            Yield (id_counter + 1)
                              (out @ [(''text'', JStr (parse_list unidecode tag)),
                                      (''tag'', JStr ''p'')])
                              # children_loop p unidecode section_str_id parent_id section_id
                                  (i + 1) rest section_title (id_counter + 1)
                        | IGNORED \<Rightarrow>
                            children_loop p unidecode section_str_id parent_id section_id (i + 1)
                              rest section_title (id_counter + 1 - 1)
                        | _ \<Rightarrow>
                            [Log (Error_text (get_text tag)),
                             Log (Error_attrs (case tag of Tag n cl at cs \<Rightarrow> cl | _ \<Rightarrow> None)
                                    (attrs_of tag)),
                             Raise ValueError]))))"

text \<open>
  \<open>__call__\<close>: the loop over the sections, with the run of \<open>parse_section\<close> for each of
  them up to the first that raises; the pairs that a run yields are the \<open>sub_sections\<close>
  of its section. The logger is the state that the call works on: the messages logged
  so far, to which the call adds its own.
\<close>

fun sections_loop ::
  "parser \<Rightarrow> (string \<Rightarrow> string) \<Rightarrow> element list \<Rightarrow> int \<Rightarrow> event list list" where
  "sections_loop p unidecode [] idx_counter = []"
| "sections_loop p unidecode (s # rest) idx_counter =
     (let run = parse_section p unidecode s 0 idx_counter in
      if raises run then [run]
      else run # sections_loop p unidecode rest (last_yield run idx_counter))"

definition yielded :: "event list \<Rightarrow> (string, json) dict list" where
  "yielded run = concat (map (\<lambda>ev. case ev of Yield idx parsed \<Rightarrow> [parsed] | _ \<Rightarrow> []) run)"

definition logged :: "event list \<Rightarrow> message list" where
  "logged run = concat (map (\<lambda>ev. case ev of Log m \<Rightarrow> [m] | _ \<Rightarrow> []) run)"

definition raised :: "event list \<Rightarrow> py_error option" where
  "raised run = (case filter is_raise run of Raise e # evs \<Rightarrow> Some e | _ \<Rightarrow> None)"

definition call ::
  "parser \<Rightarrow> (string \<Rightarrow> element) \<Rightarrow> (string \<Rightarrow> string) \<Rightarrow> string \<Rightarrow> message list
     \<Rightarrow> (py_error + (string, json) dict list list) \<times> message list" where
  "call p BeautifulSoup unidecode raw_html logger =
     (case get_header_and_sections p (BeautifulSoup raw_html) of
        Inl e \<Rightarrow> (Inl e, logger)
      | Inr sections \<Rightarrow>
          (let runs = sections_loop p unidecode sections 0 in
           (case raised (concat runs) of
              Some e \<Rightarrow> Inl e
            | None \<Rightarrow> Inr (map yielded runs),
            logger @ logged (concat runs))))"

text \<open>
  For the examples: what \<open>BeautifulSoup\<close> makes of one small LXML page, which has a
  section with a title, a paragraph, a highlighted code block, an empty paragraph, and a
  subsection with a list.
\<close>

definition example_page :: element where
  "example_page =
     Tag ''[document]'' None []
       [Tag ''html'' None []
          [Tag ''body'' None []
             [Tag ''div'' (Some [''document'']) []
                [NavigableString [CHR 0x0A],
                 Tag ''div'' (Some [''section'']) [(''id'', ''intro'')]
                   [Tag ''h1'' None [] [NavigableString ''Intro'', Tag ''a'' None [] [NavigableString ''#'']],
                    NavigableString [CHR 0x0A],
                    Tag ''p'' None [] [NavigableString ''Parse  XML'', Comment ''todo''],
                    Tag ''div'' (Some [''highlight-python'']) []
                      [Tag ''pre'' None [] [NavigableString ''x = 1'']],
                    Tag ''p'' None [] [NavigableString '' ''],
                    Tag ''div'' (Some [''section'']) [(''id'', ''steps'')]
                      [Tag ''h2'' None [] [NavigableString ''Steps''],
                       Tag ''ul'' None []
                         [Tag ''li'' None [] [NavigableString ''one''],
                          Tag ''li'' None [] [NavigableString ''two'']]]]]]]]"

definition example_soup :: "string \<Rightarrow> element" where
  "example_soup raw_html =
     (if raw_html = ''<page>'' then example_page else Tag ''[document]'' None [] [])"

section \<open>\<open>src/data/parse_so/dump_parsing.py\<close>: the second pass\<close>

text \<open>
  A parsed post, as \<open>parse_line\<close> builds it and the JSON lines of the dump hold it: the
  keys that the second pass and the alignment read. \<open>post_type\<close> is the key \<open>type\<close>,
  \<open>post_id\<close> the key \<open>id\<close>; \<open>tags\<close> is \<open>None\<close> when the key is absent (or null), which
  \<open>parsed.get('tags', [])\<close> does not tell apart from an empty list. For \<open>parent_id\<close> the
  second pass tells a missing key from \<open>null\<close>. Any further key is in the record's
  extension.
\<close>

record post =
  result :: string
  post_type :: int
  post_id :: string
  tags :: "string list option"
  parent_id :: "string key_value"

text \<open>
  An entry of \<open>question_overview_data\<close>: the keys \<open>tags\<close> and \<open>tag_to_use\<close>.
\<close>

record overview =
  ov_tags :: "string list option"
  ov_tag_to_use :: "string option"

text \<open>
  \<open>tag_counts[t]\<close>. The first pass hands over a \<open>Counter\<close> of integers, where a missing
  key counts 0; \<open>parse_so_dump\<close> replaces it by a plain dict of the \<open>Count\<close> attributes
  of \<open>Tags.xml\<close>, which are strings, and where a missing key raises \<open>KeyError\<close>.
\<close>

definition counter_get :: "(string, int) dict \<Rightarrow> string \<Rightarrow> py_error + int" where
  "counter_get tag_counts t = (case map_of tag_counts t of None \<Rightarrow> Inr 0 | Some c \<Rightarrow> Inr c)"

definition dict_get :: "(string, 'v) dict \<Rightarrow> string \<Rightarrow> py_error + 'v" where
  "dict_get tag_counts t = (case map_of tag_counts t of None \<Rightarrow> Inl KeyError | Some c \<Rightarrow> Inr c)"

text \<open>
  The builtin \<open>max(items, key=...)\<close>: the first item is the maximum so far, a later item
  replaces it only when its key is strictly greater. The keys are compared with the
  order of their type: integers by value, strings lexicographically by character.
\<close>

fun max_loop :: "('a \<Rightarrow> py_error + 'c::linorder) \<Rightarrow> 'a \<Rightarrow> 'c \<Rightarrow> 'a list \<Rightarrow> py_error + 'a" where
  "max_loop key maxitem maxval [] = Inr maxitem"
| "max_loop key maxitem maxval (item # rest) =
     (case key item of
        Inl e \<Rightarrow> Inl e
      | Inr val \<Rightarrow>
          if val > maxval then max_loop key item val rest
          else max_loop key maxitem maxval rest)"

fun py_max :: "('a \<Rightarrow> py_error + 'c::linorder) \<Rightarrow> 'a list \<Rightarrow> py_error + 'a" where
  "py_max key [] = Inl ValueError"
| "py_max key (item # rest) =
     (case key item of Inl e \<Rightarrow> Inl e | Inr val \<Rightarrow> max_loop key item val rest)"

text \<open>
  The state that \<open>save_post_using_tag\<close> works on: the dict \<open>tag_file_descriptors\<close> from
  tag to open file object (named by its path), the files that the process holds open,
  and the contents of the shard files on disk, as the list of the records written.
\<close>

record shard_files =
  tag_file_descriptors :: "(string, string) dict"
  open_files :: "string list"
  disk :: "(string, post list) dict"

text \<open>
  The choice of \<open>tag_to_use\<close>: \<open>NO_TAG\<close> when \<open>parsed.get('tags', [])\<close> is empty, the
  tag of greatest \<open>tag_counts[t]\<close> otherwise.
\<close>

definition choose_tag :: "(string \<Rightarrow> py_error + 'c::linorder) \<Rightarrow> post \<Rightarrow> py_error + string" where
  "choose_tag tag_counts parsed =
     (case tags parsed of
        None \<Rightarrow> Inr ''NO_TAG''
      | Some ts \<Rightarrow> if ts = [] then Inr ''NO_TAG'' else py_max tag_counts ts)"

text \<open>
  \<open>if tag_to_use not in tag_file_descriptors\<close>: the shard is opened with mode \<open>'w'\<close>,
  which creates the file or truncates it to nothing.
\<close>

definition open_tag_file :: "string \<Rightarrow> shard_files \<Rightarrow> shard_files" where
  "open_tag_file tag_to_use s =
     (if tag_to_use \<notin> fst ` set (tag_file_descriptors s) then
        s\<lparr>tag_file_descriptors := dict_set tag_to_use (tag_to_use @ ''.jsonl'') (tag_file_descriptors s),
          open_files := open_files s @ [tag_to_use @ ''.jsonl''],
          disk := dict_set (tag_to_use @ ''.jsonl'') [] (disk s)\<rparr>
      else s)"

text \<open>
  \<open>tag_file_descriptors[tag_to_use].write(json.dumps(parsed) + '\\n')\<close>: the record is
  appended to what the file holds. Writing to a closed file raises \<open>ValueError\<close>.
\<close>

definition write_line :: "string \<Rightarrow> post \<Rightarrow> shard_files \<Rightarrow> py_error + shard_files" where
  "write_line tag_to_use parsed s =
     (case map_of (tag_file_descriptors s) tag_to_use of
        None \<Rightarrow> Inl KeyError
      | Some f \<Rightarrow>
          if f \<in> set (open_files s) then
            Inr (s\<lparr>disk := dict_set f
                   ((case map_of (disk s) f of None \<Rightarrow> [] | Some content \<Rightarrow> content) @ [parsed])
                   (disk s)\<rparr>)
          else Inl ValueError)"

text \<open>
  \<open>for v in tag_file_descriptors.values(): v.close()\<close>.
\<close>

definition close_all :: "shard_files \<Rightarrow> shard_files" where
  "close_all s = s\<lparr>open_files := fold removeAll (map snd (tag_file_descriptors s)) (open_files s)\<rparr>"

text \<open>
  \<open>if len(tag_file_descriptors) >= max_files_open\<close>: every descriptor is closed and the
  dict is replaced by an empty one.
\<close>

definition close_if_full :: "int \<Rightarrow> shard_files \<Rightarrow> shard_files" where
  "close_if_full max_files_open s =
     (if int (length (tag_file_descriptors s)) \<ge> max_files_open
      then (close_all s)\<lparr>tag_file_descriptors := []\<rparr>
      else s)"

definition save_post_using_tag ::
  "post \<Rightarrow> shard_files \<Rightarrow> (string \<Rightarrow> py_error + 'c::linorder) \<Rightarrow> int \<Rightarrow> py_error + (shard_files \<times> string)" where
  "save_post_using_tag parsed s tag_counts max_files_open =
     (case choose_tag tag_counts parsed of
        Inl e \<Rightarrow> Inl e
      | Inr tag_to_use \<Rightarrow>
          (case write_line tag_to_use parsed (open_tag_file tag_to_use s) of
             Inl e \<Rightarrow> Inl e
           | Inr s' \<Rightarrow> Inr (close_if_full max_files_open s', tag_to_use)))"

text \<open>
  The state of \<open>second_parse_dump\<close>.
\<close>

record pass_state =
  files :: shard_files
  posts_per_tag :: "(string, int) dict"
  no_tags :: int
  question_overview_data :: "(string, overview) dict"

text \<open>
  The loop over the lines of \<open>questions.jsonl\<close>.
\<close>

fun questions_loop ::
  "(string \<Rightarrow> py_error + 'c::linorder) \<Rightarrow> int \<Rightarrow> post list \<Rightarrow> pass_state \<Rightarrow> py_error + pass_state" where
  "questions_loop tag_counts max_files_open [] st = Inr st"
| "questions_loop tag_counts max_files_open (parsed # rest) st =
     (if result parsed \<noteq> ''PASS'' \<or> post_type parsed \<notin> {1, 2} then
        questions_loop tag_counts max_files_open rest st
      else
        (case save_post_using_tag parsed (files st) tag_counts max_files_open of
           Inl e \<Rightarrow> Inl e
         | Inr (fs, tag_to_use) \<Rightarrow>
             (case map_of (question_overview_data st) (post_id parsed) of
                None \<Rightarrow> Inl KeyError
              | Some ov \<Rightarrow>
                  questions_loop tag_counts max_files_open rest
                    (st\<lparr>files := fs,
                       posts_per_tag := counter_incr tag_to_use (posts_per_tag st),
                       no_tags := no_tags st + (if tag_to_use = ''NO_TAG'' then 1 else 0),
                       question_overview_data :=
                         dict_set (post_id parsed) (ov\<lparr>ov_tag_to_use := Some tag_to_use\<rparr>)
                           (question_overview_data st)\<rparr>))))"

text \<open>
  \<open>question_overview_data[parsed['parent_id']].get('tags', [])\<close> inside the \<open>try\<close> of the
  loop. The \<open>KeyError\<close> of a parent that is no question (also of the parent \<open>null\<close>) is
  caught, and the answer is skipped: the result is \<open>None\<close>. For a line without the key
  \<open>parent_id\<close> the handler raises \<open>KeyError\<close> again, when it formats
  \<open>parsed['parent_id']\<close> into its message, and that exception leaves the function.
\<close>

definition parent_tags ::
  "(string, overview) dict \<Rightarrow> string key_value \<Rightarrow> py_error + string list option" where
  "parent_tags qod pid =
     (case pid of
        Absent \<Rightarrow> Inl KeyError
      | IsNone \<Rightarrow> Inr None
      | Has p \<Rightarrow>
          (case map_of qod p of
             None \<Rightarrow> Inr None
           | Some ov \<Rightarrow> Inr (Some (case ov_tags ov of None \<Rightarrow> [] | Some ts \<Rightarrow> ts))))"

text \<open>
  The loop over the lines of \<open>answers.jsonl\<close>.
\<close>

fun answers_loop ::
  "(string \<Rightarrow> py_error + 'c::linorder) \<Rightarrow> int \<Rightarrow> post list \<Rightarrow> pass_state \<Rightarrow> py_error + pass_state" where
  "answers_loop tag_counts max_files_open [] st = Inr st"
| "answers_loop tag_counts max_files_open (parsed # rest) st =
     (case parent_tags (question_overview_data st) (parent_id parsed) of
        Inl e \<Rightarrow> Inl e
      | Inr None \<Rightarrow> answers_loop tag_counts max_files_open rest st
      | Inr (Some ts) \<Rightarrow>
          (case save_post_using_tag (parsed\<lparr>tags := Some ts\<rparr>) (files st) tag_counts max_files_open of
             Inl e \<Rightarrow> Inl e
           | Inr (fs, tag_to_use) \<Rightarrow>
               answers_loop tag_counts max_files_open rest
                 (st\<lparr>files := fs,
                    no_tags := no_tags st + (if tag_to_use = ''NO_TAG'' then 1 else 0)\<rparr>)))"

text \<open>
  \<open>max_files_open = 1000 if not debug else 16\<close>.
\<close>

definition max_files_open_of :: "bool \<Rightarrow> int" where
  "max_files_open_of debug = (if \<not> debug then 1000 else 16)"

text \<open>
  The state before the first line: the directory of the shards is created empty.
\<close>

definition second_pass_start :: "(string, overview) dict \<Rightarrow> pass_state" where
  "second_pass_start qod =
     \<lparr>files = \<lparr>tag_file_descriptors = [], open_files = [], disk = []\<rparr>,
      posts_per_tag = [], no_tags = 0, question_overview_data = qod\<rparr>"

definition second_parse_dump ::
  "post list \<Rightarrow> post list \<Rightarrow> (string, overview) dict \<Rightarrow> (string \<Rightarrow> py_error + 'c::linorder) \<Rightarrow> bool
     \<Rightarrow> py_error + pass_state" where
  "second_parse_dump questions answers qod tag_counts debug =
     (case questions_loop tag_counts (max_files_open_of debug) questions (second_pass_start qod) of
           Inl e \<Rightarrow> Inl e
         | Inr st1 \<Rightarrow>
             (case answers_loop tag_counts (max_files_open_of debug) answers st1 of
                Inl e \<Rightarrow> Inl e
              | Inr st2 \<Rightarrow> Inr (st2\<lparr>files := close_all (files st2)\<rparr>)))"


text \<open>
  The invariant of the descriptors between two calls of \<open>save_post_using_tag\<close>: fewer
  than \<open>max_files_open\<close> entries, and the open files are exactly the files of the dict.
\<close>

definition within_budget :: "int \<Rightarrow> shard_files \<Rightarrow> bool" where
  "within_budget max_files_open s \<longleftrightarrow>
     int (length (tag_file_descriptors s)) < max_files_open
     \<and> open_files s = map snd (tag_file_descriptors s)"

text \<open>
  The loop of \<open>parse_so_dump\<close> over the lines of \<open>Tags.xml\<close>. A line is given by what
  \<open>etree.XML(line).attrib\<close> makes of it: \<open>None\<close> when it raises (the line is skipped),
  the attributes otherwise.
\<close>

fun load_tags_xml ::
  "(string, string) dict option list \<Rightarrow> (string, string) dict \<Rightarrow> py_error + (string, string) dict" where
  "load_tags_xml [] tag_counts = Inr tag_counts"
| "load_tags_xml (None # rest) tag_counts = load_tags_xml rest tag_counts"
| "load_tags_xml (Some post_dict # rest) tag_counts =
     (case map_of post_dict ''Count'' of
        None \<Rightarrow> Inl KeyError
      | Some c \<Rightarrow>
          (case map_of post_dict ''TagName'' of
             None \<Rightarrow> Inl KeyError
           | Some name \<Rightarrow> load_tags_xml rest (dict_set name c tag_counts)))"

section \<open>\<open>src/data/parse_so/dump_parsing.py\<close>: \<open>align_tag_file\<close>\<close>

text \<open>
  The lines of a shard are the dicts that \<open>json.loads\<close> makes of them. A key of a Python
  dict must be hashable, which a list and a dict are not. \<open>JObject\<close> is a dict with string
  keys as a JSON value.
\<close>

definition hashable :: "json \<Rightarrow> bool" where
  "hashable j = (case j of JList xs \<Rightarrow> False | JDict kvs \<Rightarrow> False | _ \<Rightarrow> True)"

definition JObject :: "(string, json) dict \<Rightarrow> json" where
  "JObject d = JDict (map (\<lambda>kv. (JStr (fst kv), snd kv)) d)"

text \<open>
  The value of \<open>question_dict[id]\<close> is the dict \<open>{'answers': orphaned_children[id], **line}\<close>.
  When the line has no key \<open>answers\<close>, the value under \<open>answers\<close> is the very dict
  \<open>orphaned_children[id]\<close>, so that an answer stored there later shows in the question:
  \<open>Shared id line\<close> stands for that dict, and its answers are read from
  \<open>orphaned_children\<close> when it is written. When the line has a key \<open>answers\<close>, the line's
  value replaces the shared dict: \<open>Own d\<close> is the dict \<open>d\<close> itself.
\<close>

datatype question_entry = Shared json "(string, json) dict" | Own "(string, json) dict"

record align_state =
  question_dict :: "(json, question_entry) dict"
  orphaned_children :: "(json, (json, (string, json) dict) dict) dict"

text \<open>
  Reading \<open>orphaned_children[k]\<close> of the \<open>defaultdict(dict)\<close> adds the key with an empty
  dict when it is missing.
\<close>

definition touch :: "'k \<Rightarrow> ('k, 'v list) dict \<Rightarrow> ('k, 'v list) dict" where
  "touch k d = (if k \<in> fst ` set d then d else d @ [(k, [])])"

definition children_of :: "('k, 'v list) dict \<Rightarrow> 'k \<Rightarrow> 'v list" where
  "children_of d k = (case map_of d k of None \<Rightarrow> [] | Some c \<Rightarrow> c)"

text \<open>
  The body of the first loop for one line.
\<close>

definition align_line :: "(string, json) dict \<Rightarrow> align_state \<Rightarrow> py_error + align_state" where
  "align_line line st =
     (case getitem line ''type'' of
        Inl e \<Rightarrow> Inl e
      | Inr ty \<Rightarrow>
          if ty = JInt 1 then
            (case getitem line ''id'' of
               Inl e \<Rightarrow> Inl e
             | Inr qid \<Rightarrow>
                 if \<not> hashable qid then Inl TypeError
                 else
                   Inr (st\<lparr>question_dict :=
                            dict_set qid
                              (if ''answers'' \<in> fst ` set line
                               then Own (dict_update [(''answers'', JNone)] line)
                               else Shared qid line)
                              (question_dict st),
                          orphaned_children := touch qid (orphaned_children st)\<rparr>))
          else
            (case getitem line ''parent_id'' of
               Inl e \<Rightarrow> Inl e
             | Inr pid \<Rightarrow>
                 if \<not> hashable pid then Inl TypeError
                 else
                   (case getitem line ''id'' of
                      Inl e \<Rightarrow> Inl e
                    | Inr aid \<Rightarrow>
                        if \<not> hashable aid then Inl TypeError
                        else
                          Inr (st\<lparr>orphaned_children :=
                                   dict_set pid
                                     (dict_set aid line (children_of (orphaned_children st) pid))
                                     (touch pid (orphaned_children st))\<rparr>))))"

fun align_loop :: "(string, json) dict list \<Rightarrow> align_state \<Rightarrow> py_error + align_state" where
  "align_loop [] st = Inr st"
| "align_loop (line # rest) st =
     (case align_line line st of Inl e \<Rightarrow> Inl e | Inr st' \<Rightarrow> align_loop rest st')"

text \<open>
  The answers of a question as a JSON value, and the second loop: the children of a key
  that is a question are merged into the question's \<open>answers\<close> (for a shared dict this
  updates the dict with itself; a value that is not a dict has no \<open>update\<close>), the
  children of any other key are counted as orphans.
\<close>

definition children_json :: "(json, (string, json) dict) dict \<Rightarrow> (json \<times> json) list" where
  "children_json v = map (\<lambda>kv. (fst kv, JObject (snd kv))) v"

fun orphans_loop ::
  "(json, (json, (string, json) dict) dict) dict \<Rightarrow> (json, question_entry) dict \<Rightarrow> nat
     \<Rightarrow> py_error + ((json, question_entry) dict \<times> nat)" where
  "orphans_loop [] qd orphans = Inr (qd, orphans)"
| "orphans_loop ((k, v) # rest) qd orphans =
     (case map_of qd k of
        None \<Rightarrow> orphans_loop rest qd (orphans + length v)
      | Some (Shared qid line) \<Rightarrow> orphans_loop rest qd orphans
      | Some (Own d) \<Rightarrow>
          (case map_of d ''answers'' of
             Some (JDict a) \<Rightarrow>
               orphans_loop rest
                 (dict_set k (Own (dict_set ''answers'' (JDict (dict_update a (children_json v))) d)) qd)
                 orphans
           | _ \<Rightarrow> Inl AttributeError))"

definition written_line ::
  "(json, (json, (string, json) dict) dict) dict \<Rightarrow> question_entry \<Rightarrow> (string, json) dict" where
  "written_line oc entry =
     (case entry of
        Shared qid line \<Rightarrow> (''answers'', JDict (children_json (children_of oc qid))) # line
      | Own d \<Rightarrow> d)"

text \<open>
  \<open>align_tag_file\<close> on the lines of the shard: the lines that it writes back and the
  number of orphans (the name of the file, which it returns too, is left out).
\<close>

definition align_tag_file ::
  "(string, json) dict list \<Rightarrow> py_error + ((string, json) dict list \<times> nat)" where
  "align_tag_file lines =
     (case align_loop lines \<lparr>question_dict = [], orphaned_children = []\<rparr> of
        Inl e \<Rightarrow> Inl e
      | Inr st \<Rightarrow>
          (case orphans_loop (orphaned_children st) (question_dict st) 0 of
             Inl e \<Rightarrow> Inl e
           | Inr (qd, orphans) \<Rightarrow>
               Inr (map (\<lambda>kv. written_line (orphaned_children st) (snd kv)) qd, orphans)))"

text \<open>
  What the rewritten shard is to hold: one line per question, in the order of the
  questions, with under \<open>answers\<close> the records of the other lines whose \<open>parent_id\<close> is
  the question's \<open>id\<close>, by their \<open>id\<close>; and the number of the other lines whose
  \<open>parent_id\<close> is the \<open>id\<close> of no question.
\<close>

definition is_question :: "(string, json) dict \<Rightarrow> bool" where
  "is_question line \<longleftrightarrow> map_of line ''type'' = Some (JInt 1)"

definition id_of :: "(string, json) dict \<Rightarrow> json" where
  "id_of line = (case map_of line ''id'' of None \<Rightarrow> JNone | Some i \<Rightarrow> i)"

definition parent_of :: "(string, json) dict \<Rightarrow> json" where
  "parent_of line = (case map_of line ''parent_id'' of None \<Rightarrow> JNone | Some p \<Rightarrow> p)"

definition answers_for :: "(string, json) dict list \<Rightarrow> json \<Rightarrow> (json, (string, json) dict) dict" where
  "answers_for lines qid =
     map (\<lambda>a. (id_of a, a)) (filter (\<lambda>a. \<not> is_question a \<and> parent_of a = qid) lines)"

definition aligned :: "(string, json) dict list \<Rightarrow> (string, json) dict list" where
  "aligned lines =
     map (\<lambda>q. (''answers'', JDict (children_json (answers_for lines (id_of q)))) # q)
       (filter is_question lines)"

definition orphan_count :: "(string, json) dict list \<Rightarrow> nat" where
  "orphan_count lines =
     length (filter (\<lambda>a. \<not> is_question a
                          \<and> parent_of a \<notin> id_of ` set (filter is_question lines)) lines)"

text \<open>
  The records of a shard that the second pass wrote: every record has the keys \<open>type\<close>
  and \<open>id\<close>, a question has no key \<open>answers\<close>, any other record has the key \<open>parent_id\<close>,
  and no two records have the same \<open>id\<close>.
\<close>

definition shard_records :: "(string, json) dict list \<Rightarrow> bool" where
  "shard_records lines \<longleftrightarrow>
     list_all (\<lambda>l. map_of l ''type'' \<noteq> None \<and> map_of l ''id'' \<noteq> None \<and> hashable (id_of l)
                 \<and> (if is_question l then ''answers'' \<notin> fst ` set l
                     else map_of l ''parent_id'' \<noteq> None \<and> hashable (parent_of l))) lines
     \<and> distinct (map id_of lines)"

section \<open>\<open>src/config/experiments.py\<close>: \<open>load_composed_experiments_from_file\<close>\<close>

text \<open>
  The dataclass \<open>ExperimentCard\<close> with its property \<open>save_name\<close>, and of the dataclass
  \<open>ComposedExperiments\<close> the fields \<open>name\<close> and \<open>step_cards\<close>, a dict from the name of a
  step to its card (the command template and its arguments are in the record's
  extension).
\<close>

record 'a ExperimentCard =
  card_name :: string
  card_base :: string
  card_group :: string
  card_overrides :: "'a overrides"
  card_depends_on :: "string option"

definition save_name :: "('a, 'm) ExperimentCard_scheme \<Rightarrow> string" where
  "save_name experiment = card_group experiment @ ''.'' @ card_name experiment"

record 'a ComposedExperiments =
  composed_name :: string
  step_cards :: "(string, 'a ExperimentCard) dict"

text \<open>
  What \<open>yaml.load\<close> returns for the file: \<open>None\<close> for an empty document, a dict from the
  top-level keys to their values otherwise (a document that is a sequence or a scalar
  is not modelled). The value of a key is null, a scalar, or a mapping from the names
  of the experiments to their dicts.
\<close>

datatype 'd node = Null | Scalar string | Experiments "(string, 'd) dict"

type_synonym 'd document = "(string, 'd node) dict option"

text \<open>
  An experiment dict without ablations and steps, and the branch of
  \<open>get_experiment_card_cfg_from_dict\<close> that handles it: it yields one
  \<open>ComposedExperiments\<close> with the single card \<open>single\<close>, whose overrides are the
  \<open>global_defaults\<close>' overrides updated with the experiment's. \<open>group\<close> and \<open>base\<close> are \<open>None\<close>
  for a missing key and for \<open>null\<close>, which \<open>get\<close> does not tell apart; a missing key
  \<open>overrides\<close> stands for the empty dict, and \<open>update(None)\<close> raises \<open>TypeError\<close>.
\<close>

record 'a simple_experiment =
  exp_group :: "string option"
  exp_base :: "string option"
  exp_overrides :: "'a overrides key_value"

definition get_experiment_card_cfg_from_simple_dict ::
  "'a overrides \<Rightarrow> string \<Rightarrow> 'a simple_experiment \<Rightarrow> py_error + 'a ComposedExperiments list" where
  "get_experiment_card_cfg_from_simple_dict global_overrides name experiment_card_dict =
     (case (case exp_overrides experiment_card_dict of
              Absent \<Rightarrow> Inr (dict_update (deepcopy global_overrides) [])
            | IsNone \<Rightarrow> Inl TypeError
            | Has ovr \<Rightarrow> Inr (dict_update (deepcopy global_overrides) ovr)) of
        Inl e \<Rightarrow> Inl e
      | Inr experiment_overrides \<Rightarrow>
          (case exp_group experiment_card_dict of
             None \<Rightarrow> Inl ValueError
           | Some experiment_group \<Rightarrow>
               (case exp_base experiment_card_dict of
                  None \<Rightarrow> Inl ValueError
                | Some base_config \<Rightarrow>
                    Inr [\<lparr>composed_name = name,
                          step_cards = [(''single'',
                            \<lparr>card_name = name, card_base = base_config,
                             card_group = experiment_group,
                             card_overrides = experiment_overrides,
                             card_depends_on = None\<rparr>)]\<rparr>])))"

text \<open>
  The loop over \<open>experiments.items()\<close>. The generator
  \<open>get_experiment_card_cfg_from_dict(name, experiment_dict)\<close> is a parameter: what it
  yields for a top-level experiment, or the exception that it raises.
\<close>

fun experiments_loop ::
  "(string \<Rightarrow> 'd \<Rightarrow> py_error + 'c list) \<Rightarrow> (string, 'd) dict \<Rightarrow> 'c list \<Rightarrow> py_error + 'c list" where
  "experiments_loop get_cards [] composed_experiments = Inr composed_experiments"
| "experiments_loop get_cards ((name, experiment_dict) # rest) composed_experiments =
     (case get_cards name experiment_dict of
        Inl e \<Rightarrow> Inl e
      | Inr cards \<Rightarrow> experiments_loop get_cards rest (composed_experiments @ cards))"

text \<open>
  \<open>e.save_name for ablation in composed_experiments for e in ablation.values()\<close>.
\<close>

definition save_names :: "'a ComposedExperiments list \<Rightarrow> string list" where
  "save_names composed_experiments =
     concat (map (\<lambda>ablation. map (\<lambda>e. save_name (snd e)) (step_cards ablation)) composed_experiments)"

text \<open>
  \<open>Counter(iterable)\<close>, which counts the elements in the order of their first
  occurrence, and the keys of a count above 1.
\<close>

definition Counter :: "string list \<Rightarrow> (string, int) dict" where
  "Counter xs = fold counter_incr xs []"

definition duplicated_names :: "'a ComposedExperiments list \<Rightarrow> string list" where
  "duplicated_names composed_experiments =
     map fst (filter (\<lambda>kv. snd kv > 1) (Counter (save_names composed_experiments)))"

text \<open>
  The function, on the file at \<open>experiment_card_path\<close>: \<open>None\<close> when the path does not
  exist, the loaded document otherwise. \<open>"experiments" not in None\<close> and \<open>len(None)\<close>
  raise \<open>TypeError\<close>, and a string has no \<open>items\<close>.
\<close>

definition load_composed_experiments_from_file ::
  "(string \<Rightarrow> 'd \<Rightarrow> py_error + 'a ComposedExperiments list) \<Rightarrow> 'd document option
     \<Rightarrow> py_error + ('a ComposedExperiments list \<times> 'd node option)" where
  "load_composed_experiments_from_file get_cards experiment_card_file =
     (case experiment_card_file of
        None \<Rightarrow> Inl FileExistsError
      | Some None \<Rightarrow> Inl TypeError
      | Some (Some experiment_card_dict) \<Rightarrow>
          if ''experiments'' \<notin> fst ` set experiment_card_dict then Inl KeyError
          else
            (case map_of experiment_card_dict ''experiments'' of
               None \<Rightarrow> Inl KeyError
             | Some Null \<Rightarrow> Inl TypeError
             | Some (Scalar s) \<Rightarrow> Inl AttributeError
             | Some (Experiments experiments) \<Rightarrow>
                 (case experiments_loop get_cards experiments [] of
                    Inl e \<Rightarrow> Inl e
                  | Inr composed_experiments \<Rightarrow>
                      if duplicated_names composed_experiments \<noteq> [] then Inl ValueError
                      else Inr (composed_experiments,
                                map_of experiment_card_dict ''starting_commands''))))"

section \<open>\<open>src/evaluation/evaluation.py\<close>: \<open>generate_code_predictions\<close>\<close>

text \<open>
  A sample of the dataset, with the columns that the function reads, and the sample
  after \<open>prep_col\<close>, which adds the column \<open>input_len\<close>.
\<close>

record sample =
  input_sequence :: string
  target :: string
  idx :: int

record prepped_sample = sample +
  input_len :: nat

text \<open>
  The tokenizer: its \<open>eos_token\<close> and \<open>bos_token\<close>, and the length of
  \<open>tokenizer.encode(text)\<close>.
\<close>

record tokenizer =
  eos_token :: string
  bos_token :: string
  encode_len :: "string \<Rightarrow> nat"

text \<open>
  The values of \<open>generation_kwargs\<close>: numbers, and the \<open>StoppingCriteriaList\<close> that the
  function stores under \<open>stopping_criteria\<close>.
\<close>

datatype kwarg = Num int | EOSStoppingCriteria

text \<open>
  What one generation step adds to \<open>generated_for_current_sample\<close>: the dicts that the
  pipeline returns, each with its \<open>generated_text\<close>, or, when
  \<open>remove_input_ids_from_output\<close> is set, the text after the prompt.
\<close>

datatype generated = Generated string | Text string

text \<open>
  The pipeline is a parameter: \<open>pipe calls text kwargs\<close> is the list of the
  \<open>generated_text\<close>s that the call number \<open>calls\<close> of the pipeline returns on \<open>text\<close>, so
  that two calls on the same text may differ, as with sampling.
\<close>

type_synonym pipeline = "nat \<Rightarrow> string \<Rightarrow> (string, kwarg) dict \<Rightarrow> string list"

record generation_results =
  indices :: "int list"
  labels :: "string list"
  predictions :: "generated list list"

text \<open>\<open>d.pop(k, default)\<close>: the dict without the key.\<close>

definition dict_pop :: "'k \<Rightarrow> ('k, 'v) dict \<Rightarrow> ('k, 'v) dict" where
  "dict_pop k d = filter (\<lambda>kv. fst kv \<noteq> k) d"

text \<open>
  \<open>divmod(a, b)\<close> on integers: floor division, the remainder has the sign of \<open>b\<close>, and
  \<open>b = 0\<close> raises \<open>ZeroDivisionError\<close>.
\<close>

definition py_divmod :: "int \<Rightarrow> int \<Rightarrow> py_error + (int \<times> int)" where
  "py_divmod a b = (if b = 0 then Inl ZeroDivisionError else Inr (a div b, a mod b))"

text \<open>
  The handling of \<open>max_new_tokens\<close> and \<open>max_length\<close> in \<open>generation_kwargs\<close>.
\<close>

definition length_kwargs :: "string \<Rightarrow> (string, kwarg) dict \<Rightarrow> (string, kwarg) dict" where
  "length_kwargs objective generation_kwargs =
     (let max_new_tokens =
            (case map_of generation_kwargs ''max_new_tokens'' of None \<Rightarrow> Num 256 | Some v \<Rightarrow> v);
          generation_kwargs = dict_pop ''max_new_tokens'' generation_kwargs
      in if objective \<noteq> ''lm'' then
           dict_pop ''max_new_tokens''
             (dict_set ''max_length''
                (case map_of generation_kwargs ''max_length'' of None \<Rightarrow> Num 256 | Some v \<Rightarrow> v)
                generation_kwargs)
         else
           dict_pop ''max_length'' (dict_set ''max_new_tokens'' max_new_tokens generation_kwargs))"

definition prep_col :: "string \<Rightarrow> tokenizer \<Rightarrow> sample \<Rightarrow> prepped_sample" where
  "prep_col objective tok ex =
     (let text = (if objective = ''lm'' then eos_token tok @ input_sequence ex
                  else bos_token tok @ input_sequence ex @ eos_token tok)
      in \<lparr>input_sequence = text, target = target ex, idx = idx ex,
          input_len = encode_len tok text\<rparr>)"

text \<open>
  The loop \<open>for i in range(generate_steps_per_sample)\<close>, with the steps that are left,
  the number of calls of the pipeline so far and \<open>generated_for_current_sample\<close>.
\<close>

fun steps_loop ::
  "pipeline \<Rightarrow> (string, kwarg) dict \<Rightarrow> bool \<Rightarrow> prepped_sample \<Rightarrow> nat \<Rightarrow> nat \<Rightarrow> generated list
     \<Rightarrow> generated list \<times> nat" where
  "steps_loop pipe generation_kwargs remove_input_ids_from_output smp 0 calls
     generated_for_current_sample = (generated_for_current_sample, calls)"
| "steps_loop pipe generation_kwargs remove_input_ids_from_output smp (Suc i) calls
     generated_for_current_sample =
     (let generated_from_batch = pipe calls (input_sequence smp) generation_kwargs;
          generated_from_batch =
            (if remove_input_ids_from_output
             then map (\<lambda>g. Text (drop (input_len smp) g)) generated_from_batch
             else map Generated generated_from_batch)
      in steps_loop pipe generation_kwargs remove_input_ids_from_output smp i (Suc calls)
           (generated_for_current_sample @ generated_from_batch))"

text \<open>
  The loop \<open>for sample in dataset\<close>, with its \<open>assert\<close>.
\<close>

fun samples_loop ::
  "pipeline \<Rightarrow> (string, kwarg) dict \<Rightarrow> bool \<Rightarrow> int \<Rightarrow> int \<Rightarrow> prepped_sample list \<Rightarrow> nat
     \<Rightarrow> generation_results \<Rightarrow> py_error + generation_results" where
  "samples_loop pipe generation_kwargs remove_input_ids_from_output generate_steps_per_sample
     seq_per_sample [] calls out = Inr out"
| "samples_loop pipe generation_kwargs remove_input_ids_from_output generate_steps_per_sample
     seq_per_sample (smp # rest) calls out =
     (case steps_loop pipe generation_kwargs remove_input_ids_from_output smp
             (nat generate_steps_per_sample) calls [] of
        (generated_for_current_sample, calls') \<Rightarrow>
          if int (length generated_for_current_sample) \<noteq> seq_per_sample then Inl AssertionError
          else samples_loop pipe generation_kwargs remove_input_ids_from_output
                 generate_steps_per_sample seq_per_sample rest calls'
                 (out\<lparr>predictions := predictions out @ [generated_for_current_sample],
                      labels := labels out @ [target smp],
                      indices := indices out @ [idx smp]\<rparr>))"

definition generate_code_predictions ::
  "string \<Rightarrow> pipeline \<Rightarrow> sample list \<Rightarrow> tokenizer \<Rightarrow> int \<Rightarrow> (string, kwarg) dict \<Rightarrow> int \<Rightarrow> bool
     \<Rightarrow> py_error + generation_results" where
  "generate_code_predictions objective pipe dataset tok batch_size generation_kwargs
     seq_per_sample remove_input_ids_from_output =
     (let generation_kwargs = dict_set ''stopping_criteria'' EOSStoppingCriteria generation_kwargs
      in case py_divmod seq_per_sample batch_size of
           Inl e \<Rightarrow> Inl e
         | Inr (generate_steps_per_sample, rem) \<Rightarrow>
             if rem > 0 then Inl ValueError
             else
               (let generation_kwargs =
                      dict_set ''num_return_sequences'' (Num batch_size) generation_kwargs;
                    generation_kwargs = length_kwargs objective generation_kwargs
                in samples_loop pipe generation_kwargs remove_input_ids_from_output
                     generate_steps_per_sample seq_per_sample
                     (map (prep_col objective tok) dataset) 0
                     \<lparr>indices = [], labels = [], predictions = []\<rparr>))"

text \<open>
  A pipeline and a tokenizer to run the function on: the pipeline returns
  \<open>num_return_sequences\<close> copies of its input followed by \<open>!\<close>, and the tokenizer has one
  token per character.
\<close>

definition echo_pipe :: pipeline where
  "echo_pipe calls text generation_kwargs =
     replicate (case map_of generation_kwargs ''num_return_sequences'' of
                  Some (Num n) \<Rightarrow> nat n
                | _ \<Rightarrow> 1) (text @ ''!'')"

definition char_tokenizer :: tokenizer where
  "char_tokenizer = \<lparr>eos_token = ''$'', bos_token = ''^'', encode_len = length\<rparr>"

section \<open>Facts about dicts\<close>

lemma map_of_dict_set: "map_of (dict_set k v d) = (map_of d)(k \<mapsto> v)"
  by (induction d) (auto simp: fun_eq_iff)

lemma keys_dict_set: "fst ` set (dict_set k v d) = insert k (fst ` set d)"
  by (induction d) force+

lemma keys_dict_set_list:
  "map fst (dict_set k v d) = (if k \<in> fst ` set d then map fst d else map fst d @ [k])"
  by (induction d) force+

lemma dict_set_same: "map_of d k = Some v \<Longrightarrow> dict_set k v d = d"
  by (induction d) auto

lemma distinct_dict_set: "distinct (map fst d) \<Longrightarrow> distinct (map fst (dict_set k v d))"
  by (simp add: keys_dict_set_list)

section \<open>\<open>merge\<close>: recursive dict merge\<close>

lemma merge_Cons: "merge eq a ((key, bv) # b) = merge eq (merge_step eq a key bv) b"
  by (simp add: merge_step_def)






lemma distinct_merge_step:
  "distinct (map fst a) \<Longrightarrow> distinct (map fst (merge_step eq a k bv))"
  unfolding merge_step_def
  by (auto simp: distinct_dict_set split: option.splits pyval.splits)

lemma distinct_merge: "distinct (map fst a) \<Longrightarrow> distinct (map fst (merge eq a b))"
proof (induction b arbitrary: a)
  case Nil
  then show ?case by simp
next
  case (Cons p b)
  obtain k bv where p: "p = (k, bv)" by (cases p)
  show ?case unfolding p merge_Cons
    by (rule Cons.IH) (rule distinct_merge_step [OF Cons.prems])
qed



section \<open>\<open>get_all_ablation_combinations\<close>: the Cartesian product of the ablations\<close>













section \<open>The second pass: the file-handle budget\<close>

lemma fold_removeAll: "fold removeAll xs ys = filter (\<lambda>y. y \<notin> set xs) ys"
proof (induction xs arbitrary: ys)
  case Nil
  then show ?case by simp
next
  case (Cons x xs)
  have "removeAll x ys = filter (\<lambda>y. y \<noteq> x) ys"
    by (induction ys) auto
  then show ?case
    by (simp add: Cons.IH conj_commute)
qed

lemma dict_set_fresh: "k \<notin> fst ` set d \<Longrightarrow> dict_set k v d = d @ [(k, v)]"
  by (induction d) auto

lemma open_tag_file_budget:
  assumes "within_budget cap s"
  shows "int (length (open_files (open_tag_file tag s))) \<le> cap
    \<and> open_files (open_tag_file tag s) = map snd (tag_file_descriptors (open_tag_file tag s))"
  using assms by (auto simp: within_budget_def open_tag_file_def dict_set_fresh)

lemma write_line_descriptors:
  "write_line tag parsed s = Inr s' \<Longrightarrow>
     tag_file_descriptors s' = tag_file_descriptors s \<and> open_files s' = open_files s"
  by (auto simp: write_line_def split: option.splits if_splits)

lemma close_if_full_budget:
  assumes "open_files s = map snd (tag_file_descriptors s)"
  shows "within_budget cap (close_if_full cap s) \<or> cap \<le> 0"
  using assms by (auto simp: within_budget_def close_if_full_def close_all_def fold_removeAll)

lemma save_post_budget:
  assumes "within_budget cap s" "0 < cap"
    and "save_post_using_tag parsed s tag_counts cap = Inr (s', tag)"
  shows "within_budget cap s'"
proof -
  from assms(3) obtain s1 where w: "write_line tag parsed (open_tag_file tag s) = Inr s1"
    and s': "s' = close_if_full cap s1"
    by (auto simp: save_post_using_tag_def split: sum.splits)
  from open_tag_file_budget [OF assms(1), of tag] write_line_descriptors [OF w]
  have "open_files s1 = map snd (tag_file_descriptors s1)" by simp
  from close_if_full_budget [OF this, of cap] assms(2) show ?thesis by (simp add: s')
qed

lemma questions_loop_budget:
  assumes "0 < cap"
  shows "within_budget cap (files st) \<Longrightarrow> questions_loop tag_counts cap qs st = Inr st'
    \<Longrightarrow> within_budget cap (files st')"
proof (induction qs arbitrary: st)
  case Nil
  then show ?case by simp
next
  case (Cons parsed rest)
  show ?case
  proof (cases "result parsed \<noteq> ''PASS'' \<or> post_type parsed \<notin> {1, 2}")
    case True
    with Cons show ?thesis by simp
  next
    case False
    with Cons.prems(2) obtain fs tag ov where
      sv: "save_post_using_tag parsed (files st) tag_counts cap = Inr (fs, tag)"
      and rest: "questions_loop tag_counts cap rest
         (st\<lparr>files := fs,
             posts_per_tag := counter_incr tag (posts_per_tag st),
             no_tags := no_tags st + (if tag = ''NO_TAG'' then 1 else 0),
             question_overview_data :=
               dict_set (post_id parsed) (ov\<lparr>ov_tag_to_use := Some tag\<rparr>)
                 (question_overview_data st)\<rparr>) = Inr st'"
      by (auto split: sum.splits option.splits)
    have "within_budget cap fs"
      by (rule save_post_budget [OF Cons.prems(1) assms sv])
    then show ?thesis by (intro Cons.IH [OF _ rest]) simp
  qed
qed

lemma answers_loop_budget:
  assumes "0 < cap"
  shows "within_budget cap (files st) \<Longrightarrow> answers_loop tag_counts cap as st = Inr st'
    \<Longrightarrow> within_budget cap (files st')"
proof (induction as arbitrary: st)
  case Nil
  then show ?case by simp
next
  case (Cons parsed rest)
  show ?case
  proof (cases "parent_tags (question_overview_data st) (parent_id parsed)")
    case (Inl e)
    with Cons show ?thesis by simp
  next
    case (Inr found)
    show ?thesis
    proof (cases found)
      case None
      with Inr Cons show ?thesis by simp
    next
      case (Some ts)
    with Inr Cons.prems(2) obtain fs tag where
      sv: "save_post_using_tag (parsed\<lparr>tags := Some ts\<rparr>) (files st) tag_counts cap = Inr (fs, tag)"
      and rest: "answers_loop tag_counts cap rest
         (st\<lparr>files := fs,
             no_tags := no_tags st + (if tag = ''NO_TAG'' then 1 else 0)\<rparr>) = Inr st'"
      by (auto split: sum.splits)
    have "within_budget cap fs"
      by (rule save_post_budget [OF Cons.prems(1) assms sv])
    then show ?thesis by (intro Cons.IH [OF _ rest]) simp
    qed
  qed
qed

lemma start_budget: "0 < cap \<Longrightarrow> within_budget cap (files (second_pass_start qod))"
  by (simp add: within_budget_def second_pass_start_def)

lemma max_files_open_pos: "0 < max_files_open_of debug"
  by (simp add: max_files_open_of_def)

text \<open>
  Claim C3. Throughout a run of \<open>second_parse_dump\<close> the descriptors held in
  \<open>tag_file_descriptors\<close> never exceed \<open>max_files_open\<close> (1000, or 16 in debug mode):
  between two calls of \<open>save_post_using_tag\<close>, after any number of questions and after
  any number of answers, the dict holds fewer than \<open>max_files_open\<close> descriptors and the
  open files are exactly its values; inside a call, after the shard is opened, at most
  \<open>max_files_open\<close> files are open; when the count has reached the cap after the write,
  every descriptor is closed and the dict is empty; and when the run ends no file is open.
\<close>

theorem file_handle_budget:
  fixes tag_counts :: "string \<Rightarrow> py_error + 'c::linorder"
  shows
  "(questions_loop tag_counts (max_files_open_of debug) (take n questions) (second_pass_start qod)
      = Inr st1 \<longrightarrow> within_budget (max_files_open_of debug) (files st1))
   \<and> (questions_loop tag_counts (max_files_open_of debug) questions (second_pass_start qod) = Inr st2
      \<and> answers_loop tag_counts (max_files_open_of debug) (take m answers) st2 = Inr st3
      \<longrightarrow> within_budget (max_files_open_of debug) (files st3))
   \<and> (within_budget (max_files_open_of debug) s \<longrightarrow>
        int (length (open_files (open_tag_file tag s))) \<le> max_files_open_of debug
        \<and> open_files (open_tag_file tag s) = map snd (tag_file_descriptors (open_tag_file tag s)))
   \<and> (within_budget (max_files_open_of debug) s
      \<and> save_post_using_tag parsed s tag_counts (max_files_open_of debug) = Inr (s', tag)
      \<and> int (length (tag_file_descriptors (open_tag_file tag s))) \<ge> max_files_open_of debug
      \<longrightarrow> tag_file_descriptors s' = [] \<and> open_files s' = [])
   \<and> (second_parse_dump questions answers qod tag_counts debug = Inr st4
      \<longrightarrow> open_files (files st4) = [])"
proof (intro conjI impI)
  let ?cap = "max_files_open_of debug"
  note pos = max_files_open_pos [of debug]
  show "within_budget ?cap (files st1)"
    if "questions_loop tag_counts ?cap (take n questions) (second_pass_start qod) = Inr st1"
    using questions_loop_budget [OF pos start_budget [OF pos] that] .
  show "within_budget ?cap (files st3)"
    if "questions_loop tag_counts ?cap questions (second_pass_start qod) = Inr st2
      \<and> answers_loop tag_counts ?cap (take m answers) st2 = Inr st3"
    using that questions_loop_budget [OF pos start_budget [OF pos]] answers_loop_budget [OF pos]
    by blast
  show "int (length (open_files (open_tag_file tag s))) \<le> ?cap"
    if "within_budget ?cap s"
    using open_tag_file_budget [OF that, of tag] by blast
  show "open_files (open_tag_file tag s) = map snd (tag_file_descriptors (open_tag_file tag s))"
    if "within_budget ?cap s"
    using open_tag_file_budget [OF that, of tag] by blast
  have closed: "tag_file_descriptors s' = [] \<and> open_files s' = []"
    if h: "within_budget ?cap s
      \<and> save_post_using_tag parsed s tag_counts ?cap = Inr (s', tag)
      \<and> int (length (tag_file_descriptors (open_tag_file tag s))) \<ge> ?cap"
  proof -
    from h obtain s1 where w: "write_line tag parsed (open_tag_file tag s) = Inr s1"
      and s': "s' = close_if_full ?cap s1"
      by (auto simp: save_post_using_tag_def split: sum.splits)
    from h open_tag_file_budget [of ?cap s tag] write_line_descriptors [OF w]
    have "open_files s1 = map snd (tag_file_descriptors s1)"
      and "int (length (tag_file_descriptors s1)) \<ge> ?cap" by simp_all
    then show ?thesis
      by (simp add: s' close_if_full_def close_all_def fold_removeAll)
  qed
  then show "tag_file_descriptors s' = []"
    if "within_budget ?cap s
      \<and> save_post_using_tag parsed s tag_counts ?cap = Inr (s', tag)
      \<and> int (length (tag_file_descriptors (open_tag_file tag s))) \<ge> ?cap"
    using that by simp
  from closed show "open_files s' = []"
    if "within_budget ?cap s
      \<and> save_post_using_tag parsed s tag_counts ?cap = Inr (s', tag)
      \<and> int (length (tag_file_descriptors (open_tag_file tag s))) \<ge> ?cap"
    using that by simp
  show "open_files (files st4) = []"
    if h: "second_parse_dump questions answers qod tag_counts debug = Inr st4"
  proof -
    from h obtain st2 st3 where
      q: "questions_loop tag_counts ?cap questions (second_pass_start qod) = Inr st2"
      and a: "answers_loop tag_counts ?cap answers st2 = Inr st3"
      and st4: "st4 = st3\<lparr>files := close_all (files st3)\<rparr>"
      by (auto simp: second_parse_dump_def split: sum.splits)
    have "within_budget ?cap (files st3)"
      using questions_loop_budget [OF pos start_budget [OF pos] q] answers_loop_budget [OF pos _ a]
      by blast
    then show ?thesis
      by (simp add: st4 close_all_def fold_removeAll within_budget_def)
  qed
qed

text \<open>
  An instance of the budget theorem in debug mode: one question and its answer, and a
  call of \<open>save_post_using_tag\<close> that opens the sixteenth shard.
\<close>

theorem file_handle_budget_witness:
  "(\<exists>st1. questions_loop (counter_get [(''a'', 1)]) (max_files_open_of True)
        (take 1 [\<lparr>result = ''PASS'', post_type = 1, post_id = ''1'', tags = Some [''a''], parent_id = Absent\<rparr>])
        (second_pass_start [(''1'', \<lparr>ov_tags = Some [''a''], ov_tag_to_use = None\<rparr>)]) = Inr st1
      \<and> within_budget (max_files_open_of True) (files st1))
   \<and> (\<exists>st2 st3. questions_loop (counter_get [(''a'', 1)]) (max_files_open_of True)
        [\<lparr>result = ''PASS'', post_type = 1, post_id = ''1'', tags = Some [''a''], parent_id = Absent\<rparr>]
        (second_pass_start [(''1'', \<lparr>ov_tags = Some [''a''], ov_tag_to_use = None\<rparr>)]) = Inr st2
      \<and> answers_loop (counter_get [(''a'', 1)]) (max_files_open_of True)
        (take 1 [\<lparr>result = ''PASS'', post_type = 2, post_id = ''2'', tags = None, parent_id = Has ''1''\<rparr>]) st2
        = Inr st3
      \<and> within_budget (max_files_open_of True) (files st3))
   \<and> (\<exists>st4. second_parse_dump
        [\<lparr>result = ''PASS'', post_type = 1, post_id = ''1'', tags = Some [''a''], parent_id = Absent\<rparr>]
        [\<lparr>result = ''PASS'', post_type = 2, post_id = ''2'', tags = None, parent_id = Has ''1''\<rparr>]
        [(''1'', \<lparr>ov_tags = Some [''a''], ov_tag_to_use = None\<rparr>)]
        (counter_get [(''a'', 1)]) True = Inr st4
      \<and> open_files (files st4) = [])
   \<and> within_budget (max_files_open_of True)
        \<lparr>tag_file_descriptors = map (\<lambda>t. (t, t @ ''.jsonl''))
            [''a'', ''b'', ''c'', ''d'', ''e'', ''f'', ''g'', ''h'', ''i'', ''j'', ''k'', ''l'', ''m'', ''n'', ''o''],
          open_files = map (\<lambda>t. t @ ''.jsonl'')
            [''a'', ''b'', ''c'', ''d'', ''e'', ''f'', ''g'', ''h'', ''i'', ''j'', ''k'', ''l'', ''m'', ''n'', ''o''],
          disk = []\<rparr>
   \<and> int (length (open_files (open_tag_file ''p''
        \<lparr>tag_file_descriptors = map (\<lambda>t. (t, t @ ''.jsonl''))
            [''a'', ''b'', ''c'', ''d'', ''e'', ''f'', ''g'', ''h'', ''i'', ''j'', ''k'', ''l'', ''m'', ''n'', ''o''],
          open_files = map (\<lambda>t. t @ ''.jsonl'')
            [''a'', ''b'', ''c'', ''d'', ''e'', ''f'', ''g'', ''h'', ''i'', ''j'', ''k'', ''l'', ''m'', ''n'', ''o''],
          disk = []\<rparr>))) = max_files_open_of True
   \<and> (\<exists>s'. save_post_using_tag
          \<lparr>result = ''PASS'', post_type = 1, post_id = ''3'', tags = Some [''p''], parent_id = Absent\<rparr>
          \<lparr>tag_file_descriptors = map (\<lambda>t. (t, t @ ''.jsonl''))
            [''a'', ''b'', ''c'', ''d'', ''e'', ''f'', ''g'', ''h'', ''i'', ''j'', ''k'', ''l'', ''m'', ''n'', ''o''],
          open_files = map (\<lambda>t. t @ ''.jsonl'')
            [''a'', ''b'', ''c'', ''d'', ''e'', ''f'', ''g'', ''h'', ''i'', ''j'', ''k'', ''l'', ''m'', ''n'', ''o''],
          disk = []\<rparr>
          (counter_get [(''a'', 1)]) (max_files_open_of True) = Inr (s', ''p'')
        \<and> tag_file_descriptors s' = [] \<and> open_files s' = [])"
proof -
  let ?tc = "counter_get [(''a'', 1)]"
  let ?q = "\<lparr>result = ''PASS'', post_type = 1, post_id = ''1'', tags = Some [''a''], parent_id = Absent\<rparr>"
  let ?a = "\<lparr>result = ''PASS'', post_type = 2, post_id = ''2'', tags = None, parent_id = Has ''1''\<rparr>"
  let ?qod = "[(''1'', \<lparr>ov_tags = Some [''a''], ov_tag_to_use = None\<rparr>)]"
  note defs = second_parse_dump_def second_pass_start_def max_files_open_of_def
    save_post_using_tag_def choose_tag_def counter_get_def open_tag_file_def write_line_def
    close_if_full_def close_all_def counter_incr_def parent_tags_def
  let ?s = "\<lparr>tag_file_descriptors = map (\<lambda>t. (t, t @ ''.jsonl''))
            [''a'', ''b'', ''c'', ''d'', ''e'', ''f'', ''g'', ''h'', ''i'', ''j'', ''k'', ''l'', ''m'', ''n'', ''o''],
          open_files = map (\<lambda>t. t @ ''.jsonl'')
            [''a'', ''b'', ''c'', ''d'', ''e'', ''f'', ''g'', ''h'', ''i'', ''j'', ''k'', ''l'', ''m'', ''n'', ''o''],
          disk = []\<rparr>"
  let ?p = "\<lparr>result = ''PASS'', post_type = 1, post_id = ''3'', tags = Some [''p''], parent_id = Absent\<rparr>"
  have w: "within_budget (max_files_open_of True) ?s"
    by (simp add: within_budget_def max_files_open_of_def)
  have n: "int (length (open_files (open_tag_file ''p'' ?s))) = max_files_open_of True"
    by (simp add: open_tag_file_def max_files_open_of_def)
  have n': "int (length (tag_file_descriptors (open_tag_file ''p'' ?s))) \<ge> max_files_open_of True"
    by (simp add: open_tag_file_def max_files_open_of_def)
  obtain s' where sv: "save_post_using_tag ?p ?s ?tc (max_files_open_of True) = Inr (s', ''p'')"
    by (simp add: defs)
  obtain st2 where q: "questions_loop ?tc (max_files_open_of True) [?q] (second_pass_start ?qod) = Inr st2"
    by (simp add: defs)
  obtain st3 where a: "answers_loop ?tc (max_files_open_of True) [?a] st2 = Inr st3"
    using q by (auto simp add: defs)
  obtain st4 where d: "second_parse_dump [?q] [?a] ?qod ?tc True = Inr st4"
    using q a by (simp add: second_parse_dump_def)
  note b = file_handle_budget [where tag_counts = ?tc and debug = True and n = 1 and m = 1
      and questions = "[?q]" and answers = "[?a]" and qod = ?qod
      and ?st1.0 = st2 and ?st2.0 = st2 and ?st3.0 = st3 and ?st4.0 = st4
      and s = ?s and tag = "''p''" and parsed = ?p and s' = s']
  from b q a d w n n' sv show ?thesis by simp
qed

section \<open>The second pass: the choice of the shard\<close>

text \<open>
  Claim C1. A post with tags is written to the shard of the tag of its list with the
  highest count in \<open>tag_counts\<close>, also when \<open>tag_counts\<close> is loaded from \<open>Tags.xml\<close>.
  The code at a post tagged \<open>python\<close> and \<open>pdb\<close>, where \<open>Tags.xml\<close> counts 2192345 posts
  for \<open>python\<close> and 998 for \<open>pdb\<close>: the dict loaded from \<open>Tags.xml\<close> holds the counts as
  strings, \<open>max\<close> compares them character by character, and the post goes to the shard
  of \<open>pdb\<close>. With the integer counters of the first pass the same post goes to the shard
  of \<open>python\<close>.
\<close>

theorem tags_xml_counts_compared_as_strings:
  "load_tags_xml
     [None,
      Some [(''Id'', ''16''), (''TagName'', ''python''), (''Count'', ''2192345'')],
      Some [(''Id'', ''99''), (''TagName'', ''pdb''), (''Count'', ''998'')]] []
     = Inr [(''python'', ''2192345''), (''pdb'', ''998'')]
   \<and> save_post_using_tag
       \<lparr>result = ''PASS'', post_type = 1, post_id = ''7'', tags = Some [''python'', ''pdb''],
        parent_id = Absent\<rparr>
       \<lparr>tag_file_descriptors = [], open_files = [], disk = []\<rparr>
       (dict_get [(''python'', ''2192345''), (''pdb'', ''998'')]) 1000
     = Inr (\<lparr>tag_file_descriptors = [(''pdb'', ''pdb.jsonl'')], open_files = [''pdb.jsonl''],
             disk = [(''pdb.jsonl'',
               [\<lparr>result = ''PASS'', post_type = 1, post_id = ''7'',
                 tags = Some [''python'', ''pdb''], parent_id = Absent\<rparr>])]\<rparr>, ''pdb'')
   \<and> save_post_using_tag
       \<lparr>result = ''PASS'', post_type = 1, post_id = ''7'', tags = Some [''python'', ''pdb''],
        parent_id = Absent\<rparr>
       \<lparr>tag_file_descriptors = [], open_files = [], disk = []\<rparr>
       (counter_get [(''python'', 2192345), (''pdb'', 998)]) 1000
     = Inr (\<lparr>tag_file_descriptors = [(''python'', ''python.jsonl'')], open_files = [''python.jsonl''],
             disk = [(''python.jsonl'',
               [\<lparr>result = ''PASS'', post_type = 1, post_id = ''7'',
                 tags = Some [''python'', ''pdb''], parent_id = Absent\<rparr>])]\<rparr>, ''python'')"
  by (simp add: save_post_using_tag_def choose_tag_def dict_get_def counter_get_def
      open_tag_file_def write_line_def close_if_full_def)

section \<open>The second pass: a shard that is opened again\<close>

lemma counter_incr_Nil: "counter_incr k [] = [(k, 1)]"
  by (simp add: counter_incr_def)

lemma counter_incr_Cons:
  "counter_incr k ((k', n) # c) = (if k = k' then (k, n + 1) # c else (k', n) # counter_incr k c)"
  by (simp add: counter_incr_def)

text \<open>
  Claim C2. Every \<open>PASS\<close> record read by \<open>second_parse_dump\<close> is, when it finishes, exactly
  once in the shard it was binned to, however often the cap closes the open shards.
  The code in debug mode (cap 16) at seventeen questions, the first sixteen with the
  distinct tags \<open>a\<close> to \<open>p\<close> and the last one, \<open>q\<close>, tagged \<open>a\<close> again: the sixteenth
  question fills the dict, every descriptor is closed and the dict is emptied, and the
  last question opens \<open>a.jsonl\<close> again with mode \<open>'w'\<close>, which truncates it. At the end
  \<open>a.jsonl\<close> holds the last question only: the first question is in no shard.
\<close>

theorem reopened_shard_loses_records:
  "(case second_parse_dump
      (map (\<lambda>t. \<lparr>result = ''PASS'', post_type = 1, post_id = t, tags = Some [t], parent_id = Absent\<rparr>)
         [''a'', ''b'', ''c'', ''d'', ''e'', ''f'', ''g'', ''h'', ''i'', ''j'', ''k'', ''l'', ''m'', ''n'',
          ''o'', ''p'']
       @ [\<lparr>result = ''PASS'', post_type = 1, post_id = ''q'', tags = Some [''a''], parent_id = Absent\<rparr>])
      []
      (map (\<lambda>t. (t, \<lparr>ov_tags = Some [t], ov_tag_to_use = None\<rparr>))
         [''a'', ''b'', ''c'', ''d'', ''e'', ''f'', ''g'', ''h'', ''i'', ''j'', ''k'', ''l'', ''m'', ''n'',
          ''o'', ''p'']
       @ [(''q'', \<lparr>ov_tags = Some [''a''], ov_tag_to_use = None\<rparr>)])
      (counter_get [(''a'', 2)])
      True
    of Inl e \<Rightarrow> None
     | Inr st \<Rightarrow> map_of (disk (files st)) ''a.jsonl'')
   = Some [\<lparr>result = ''PASS'', post_type = 1, post_id = ''q'', tags = Some [''a''], parent_id = Absent\<rparr>]"
  by (simp add: second_parse_dump_def second_pass_start_def max_files_open_of_def
      save_post_using_tag_def choose_tag_def counter_get_def open_tag_file_def write_line_def
      close_if_full_def close_all_def counter_incr_Nil counter_incr_Cons)

section \<open>\<open>generate_code_predictions\<close>: the divisibility check and the shape of the result\<close>

lemma steps_loop_length:
  assumes "\<And>calls. int (length (pipe calls (input_sequence smp) kw)) = b"
  shows "int (length (fst (steps_loop pipe kw rm smp n calls acc))) = int (length acc) + int n * b"
  using assms
proof (induction n arbitrary: calls acc)
  case 0
  then show ?case by simp
next
  case (Suc n)
  show ?case
    by (simp add: Let_def Suc.IH [OF Suc.prems] Suc.prems algebra_simps)
qed

lemma samples_loop_not_ValueError:
  "samples_loop pipe kw rm steps seq smps calls out \<noteq> Inl ValueError"
  by (induction smps arbitrary: calls out) (auto split: prod.splits)

lemma samples_loop_result:
  "samples_loop pipe kw rm steps seq smps calls out = Inr out' \<Longrightarrow>
     indices out' = indices out @ map idx smps
     \<and> labels out' = labels out @ map target smps
     \<and> (\<exists>ps. predictions out' = predictions out @ ps \<and> length ps = length smps
           \<and> (\<forall>p \<in> set ps. int (length p) = seq))"
proof (induction smps arbitrary: calls out)
  case Nil
  then show ?case by simp
next
  case (Cons smp rest)
  obtain g calls' where st: "steps_loop pipe kw rm smp (nat steps) calls [] = (g, calls')"
    by (cases "steps_loop pipe kw rm smp (nat steps) calls []")
  with Cons.prems have len: "int (length g) = seq"
    and rest: "samples_loop pipe kw rm steps seq rest calls'
        (out\<lparr>predictions := predictions out @ [g], labels := labels out @ [target smp],
             indices := indices out @ [idx smp]\<rparr>) = Inr out'"
    by (auto split: if_splits)
  from Cons.IH [OF rest] obtain ps where
    i: "indices out' = (indices out @ [idx smp]) @ map idx rest"
    and l: "labels out' = (labels out @ [target smp]) @ map target rest"
    and p: "predictions out' = (predictions out @ [g]) @ ps" "length ps = length rest"
      "\<forall>p \<in> set ps. int (length p) = seq"
    by auto
  have "predictions out' = predictions out @ (g # ps) \<and> length (g # ps) = length (smp # rest)
      \<and> (\<forall>p \<in> set (g # ps). int (length p) = seq)"
    using p len by simp
  then show ?case using i l by (simp del: set_simps list.size)
qed

lemma samples_loop_total:
  assumes "\<And>calls x. int (length (pipe calls x kw)) = b" and "int (nat steps) * b = seq"
  shows "\<exists>out'. samples_loop pipe kw rm steps seq smps calls out = Inr out'"
proof (induction smps arbitrary: calls out)
  case Nil
  then show ?case by simp
next
  case (Cons smp rest)
  obtain g calls' where st: "steps_loop pipe kw rm smp (nat steps) calls [] = (g, calls')"
    by (cases "steps_loop pipe kw rm smp (nat steps) calls []")
  have "int (length (fst (steps_loop pipe kw rm smp (nat steps) calls []))) = int (nat steps) * b"
    using steps_loop_length [of pipe smp kw b rm "nat steps" calls "[]"] assms(1) by simp
  with st assms(2) have "int (length g) = seq" by simp
  with st Cons.IH show ?case by simp
qed

text \<open>
  Claim C10, for a positive \<open>batch_size\<close>. \<open>generate_code_predictions\<close> raises
  \<open>ValueError\<close> if and only if \<open>seq_per_sample\<close> is not divisible by \<open>batch_size\<close>; when it
  returns, \<open>indices\<close>, \<open>labels\<close> and \<open>predictions\<close> have one entry per sample of the
  dataset, in the order of the dataset, and every entry of \<open>predictions\<close> holds exactly
  \<open>seq_per_sample\<close> generated sequences. It does return when \<open>batch_size\<close> divides a
  non-negative \<open>seq_per_sample\<close> and every call of the pipeline returns \<open>batch_size\<close>
  sequences.
\<close>

theorem generate_code_predictions_positive_batch:
  assumes "0 < batch_size"
  shows "(generate_code_predictions objective pipe dataset tok batch_size generation_kwargs
            seq_per_sample remove_input_ids_from_output = Inl ValueError
          \<longleftrightarrow> \<not> batch_size dvd seq_per_sample)
    \<and> (\<forall>out. generate_code_predictions objective pipe dataset tok batch_size generation_kwargs
            seq_per_sample remove_input_ids_from_output = Inr out \<longrightarrow>
          indices out = map idx dataset \<and> labels out = map target dataset
          \<and> length (predictions out) = length dataset
          \<and> (\<forall>p \<in> set (predictions out). int (length p) = seq_per_sample))
    \<and> (batch_size dvd seq_per_sample \<and> 0 \<le> seq_per_sample
          \<and> (\<forall>calls x kw. int (length (pipe calls x kw)) = batch_size) \<longrightarrow>
        (\<exists>out. generate_code_predictions objective pipe dataset tok batch_size generation_kwargs
            seq_per_sample remove_input_ids_from_output = Inr out))"
proof (intro conjI allI impI ballI)
  let ?g = "generate_code_predictions objective pipe dataset tok batch_size generation_kwargs
            seq_per_sample remove_input_ids_from_output"
  let ?kw = "length_kwargs objective (dict_set ''num_return_sequences'' (Num batch_size)
      (dict_set ''stopping_criteria'' EOSStoppingCriteria generation_kwargs))"
  let ?loop = "samples_loop pipe ?kw remove_input_ids_from_output (seq_per_sample div batch_size)
      seq_per_sample (map (prep_col objective tok) dataset) 0
      \<lparr>indices = [], labels = [], predictions = []\<rparr>"
  have rem: "seq_per_sample mod batch_size > 0 \<longleftrightarrow> \<not> batch_size dvd seq_per_sample"
    using assms by (simp add: dvd_eq_mod_eq_0 order_less_le)
  have g: "?g = (if \<not> batch_size dvd seq_per_sample then Inl ValueError else ?loop)"
    using assms rem by (simp add: generate_code_predictions_def py_divmod_def Let_def)
  show "?g = Inl ValueError \<longleftrightarrow> \<not> batch_size dvd seq_per_sample"
    by (simp add: g samples_loop_not_ValueError)
  {
    fix out
    assume "?g = Inr out"
    then have "?loop = Inr out"
      by (simp add: g split: if_splits)
    from samples_loop_result [OF this]
    show "indices out = map idx dataset" "labels out = map target dataset"
      "length (predictions out) = length dataset"
      by (auto simp: prep_col_def Let_def)
  }
  {
    fix out p
    assume "?g = Inr out" and p: "p \<in> set (predictions out)"
    then have "?loop = Inr out"
      by (simp add: g split: if_splits)
    from samples_loop_result [OF this] p
    show "int (length p) = seq_per_sample"
      by auto
  }
  {
    assume h: "batch_size dvd seq_per_sample \<and> 0 \<le> seq_per_sample
      \<and> (\<forall>calls x kw. int (length (pipe calls x kw)) = batch_size)"
    then have "0 \<le> seq_per_sample div batch_size"
      using assms by (simp add: pos_imp_zdiv_nonneg_iff)
    then have "int (nat (seq_per_sample div batch_size)) * batch_size = seq_per_sample"
      using h by simp
    from samples_loop_total [of pipe ?kw batch_size, OF _ this] h
    show "\<exists>out. ?g = Inr out"
      by (simp add: g)
  }
qed

text \<open>
  The theorem at \<open>batch_size = 2\<close> on two samples: \<open>seq_per_sample = 4\<close> gives four
  sequences for each sample, \<open>seq_per_sample = 3\<close> raises \<open>ValueError\<close>.
\<close>

theorem generate_code_predictions_positive_batch_witness:
  "(0::int) < 2 \<and> (2::int) dvd 4 \<and> \<not> (2::int) dvd 3
   \<and> generate_code_predictions ''lm'' echo_pipe
        [\<lparr>input_sequence = ''ab'', target = ''x'', idx = 7\<rparr>,
         \<lparr>input_sequence = ''c'', target = ''y'', idx = 8\<rparr>]
        char_tokenizer 2 [] 4 True
     = Inr \<lparr>indices = [7, 8], labels = [''x'', ''y''],
            predictions = [[Text ''!'', Text ''!'', Text ''!'', Text ''!''],
                           [Text ''!'', Text ''!'', Text ''!'', Text ''!'']]\<rparr>
   \<and> generate_code_predictions ''lm'' echo_pipe
        [\<lparr>input_sequence = ''ab'', target = ''x'', idx = 7\<rparr>,
         \<lparr>input_sequence = ''c'', target = ''y'', idx = 8\<rparr>]
        char_tokenizer 2 [] 3 True
     = Inl ValueError"
  using generate_code_predictions_positive_batch [of 2 "''lm''" echo_pipe
      "[\<lparr>input_sequence = ''ab'', target = ''x'', idx = 7\<rparr>,
        \<lparr>input_sequence = ''c'', target = ''y'', idx = 8\<rparr>]" char_tokenizer "[]" 4 True]
    generate_code_predictions_positive_batch [of 2 "''lm''" echo_pipe
      "[\<lparr>input_sequence = ''ab'', target = ''x'', idx = 7\<rparr>,
        \<lparr>input_sequence = ''c'', target = ''y'', idx = 8\<rparr>]" char_tokenizer "[]" 3 True]
  by (simp add: generate_code_predictions_def py_divmod_def length_kwargs_def dict_pop_def
      prep_col_def echo_pipe_def char_tokenizer_def Let_def numeral_2_eq_2)

text \<open>
  Claim C10 as stated, for every \<open>batch_size\<close>, fails: 4 is not divisible by 0, and
  \<open>divmod\<close> raises \<open>ZeroDivisionError\<close>, not \<open>ValueError\<close>; 5 is not divisible by \<open>-2\<close>, the
  remainder \<open>-1\<close> is not above 0, and on an empty dataset the function returns.
\<close>

theorem batch_size_zero_or_negative_counterexample:
  "\<not> (0::int) dvd 4
   \<and> generate_code_predictions ''lm'' echo_pipe
        [\<lparr>input_sequence = ''ab'', target = ''x'', idx = 7\<rparr>] char_tokenizer 0 [] 4 True
     = Inl ZeroDivisionError
   \<and> \<not> (- 2::int) dvd 5
   \<and> generate_code_predictions ''lm'' echo_pipe [] char_tokenizer (- 2) [] 5 True
     = Inr \<lparr>indices = [], labels = [], predictions = []\<rparr>"
  by (simp add: generate_code_predictions_def py_divmod_def)

section \<open>\<open>load_composed_experiments_from_file\<close>: duplicated names\<close>

lemma keys_counter_incr: "fst ` set (counter_incr k c) = insert k (fst ` set c)"
  by (simp add: counter_incr_def keys_dict_set)

lemma distinct_counter_incr: "distinct (map fst c) \<Longrightarrow> distinct (map fst (counter_incr k c))"
  by (simp add: counter_incr_def distinct_dict_set)

lemma map_of_counter_incr:
  "map_of (counter_incr k c) =
     (map_of c)(k \<mapsto> (case map_of c k of None \<Rightarrow> 0 | Some n \<Rightarrow> n) + 1)"
  by (simp add: counter_incr_def map_of_dict_set)

lemma fold_counter_incr:
  "distinct (map fst c) \<Longrightarrow>
     distinct (map fst (fold counter_incr xs c))
     \<and> map_of (fold counter_incr xs c) k =
         (if k \<in> set xs \<or> k \<in> fst ` set c
          then Some (int (count_list xs k) + (case map_of c k of None \<Rightarrow> 0 | Some n \<Rightarrow> n))
          else None)"
proof (induction xs arbitrary: c)
  case Nil
  then show ?case
    by (auto simp: map_of_eq_None_iff split: option.splits)
next
  case (Cons x xs)
  have d: "distinct (map fst (counter_incr x c))"
    by (rule distinct_counter_incr [OF Cons.prems])
  show ?case
    using Cons.IH [OF d]
    by (auto simp: keys_counter_incr map_of_counter_incr split: option.splits)
qed

lemma Counter_count:
  "distinct (map fst (Counter xs))"
  "map_of (Counter xs) k = (if k \<in> set xs then Some (int (count_list xs k)) else None)"
  using fold_counter_incr [of "[]" xs k] by (simp_all add: Counter_def)

lemma distinct_count_le_1: "distinct xs \<longleftrightarrow> (\<forall>x. count_list xs x \<le> 1)"
  by (induction xs) (auto simp: count_list_0_iff le_Suc_eq)

lemma duplicated_names_empty:
  "duplicated_names cs = [] \<longleftrightarrow> distinct (save_names cs)"
proof -
  let ?xs = "save_names cs"
  have "duplicated_names cs = [] \<longleftrightarrow> (\<forall>kv \<in> set (Counter ?xs). snd kv \<le> 1)"
    by (auto simp: duplicated_names_def filter_empty_conv not_less)
  also have "\<dots> \<longleftrightarrow> (\<forall>k v. map_of (Counter ?xs) k = Some v \<longrightarrow> v \<le> 1)"
    using Counter_count(1) [of ?xs] by (auto dest: map_of_SomeD)
  also have "\<dots> \<longleftrightarrow> (\<forall>k. count_list ?xs k \<le> 1)"
    by (auto simp: Counter_count(2) count_list_0_iff not_less_eq_eq split: if_splits)
      (metis count_list_0_iff le0 nat_le_linear not_less_eq_eq)
  finally show ?thesis
    by (simp add: distinct_count_le_1)
qed

text \<open>
  Claim C9, for a document that is a mapping. \<open>load_composed_experiments_from_file\<close>
  raises \<open>KeyError\<close> when the document has no key \<open>experiments\<close>; it raises \<open>ValueError\<close>
  whenever every top-level experiment is composed and two of the composed cards have
  the same \<open>save_name\<close>; and when it returns, the \<open>save_name\<close>s of the cards of the
  returned list are pairwise distinct. This holds for every generator of the cards.
\<close>

theorem duplicate_save_names_rejected:
  "(map_of experiment_card_dict ''experiments'' = None \<longrightarrow>
      load_composed_experiments_from_file get_cards (Some (Some experiment_card_dict))
        = Inl KeyError)
   \<and> (map_of experiment_card_dict ''experiments'' = Some (Experiments experiments)
        \<and> experiments_loop get_cards experiments [] = Inr composed_experiments
        \<and> \<not> distinct (save_names composed_experiments) \<longrightarrow>
      load_composed_experiments_from_file get_cards (Some (Some experiment_card_dict))
        = Inl ValueError)
   \<and> (load_composed_experiments_from_file get_cards experiment_card_file
        = Inr (returned, starting_commands) \<longrightarrow>
      distinct (save_names returned))"
proof (intro conjI impI)
  show "load_composed_experiments_from_file get_cards (Some (Some experiment_card_dict)) = Inl KeyError"
    if "map_of experiment_card_dict ''experiments'' = None"
    using that by (simp add: load_composed_experiments_from_file_def map_of_eq_None_iff)
  show "load_composed_experiments_from_file get_cards (Some (Some experiment_card_dict)) = Inl ValueError"
    if "map_of experiment_card_dict ''experiments'' = Some (Experiments experiments)
        \<and> experiments_loop get_cards experiments [] = Inr composed_experiments
        \<and> \<not> distinct (save_names composed_experiments)"
  proof -
    from that have "''experiments'' \<in> fst ` set experiment_card_dict"
      by (metis map_of_eq_None_iff option.distinct(1))
    with that show ?thesis
      by (simp add: load_composed_experiments_from_file_def duplicated_names_empty)
  qed
  show "distinct (save_names returned)"
    if "load_composed_experiments_from_file get_cards experiment_card_file
        = Inr (returned, starting_commands)"
    using that
    by (auto simp: load_composed_experiments_from_file_def duplicated_names_empty
        split: option.splits node.splits sum.splits if_splits)
qed

text \<open>
  The theorem on three documents with simple experiments: one without the key
  \<open>experiments\<close>; one where the experiment \<open>b.c\<close> of group \<open>a\<close> and the experiment \<open>c\<close> of
  group \<open>a.b\<close> are both saved as \<open>a.b.c\<close>; one with two experiments of distinct names.
\<close>

theorem duplicate_save_names_rejected_witness:
  "load_composed_experiments_from_file (get_experiment_card_cfg_from_simple_dict ([] :: int overrides))
      (Some (Some [(''starting_commands'', Scalar ''cd project'')]))
     = Inl KeyError
   \<and> load_composed_experiments_from_file (get_experiment_card_cfg_from_simple_dict ([] :: int overrides))
      (Some (Some [(''experiments'', Experiments
         [(''b.c'', \<lparr>exp_group = Some ''a'', exp_base = Some ''cfg'', exp_overrides = Absent\<rparr>),
          (''c'', \<lparr>exp_group = Some ''a.b'', exp_base = Some ''cfg'', exp_overrides = Absent\<rparr>)])]))
     = Inl ValueError
   \<and> (\<exists>returned. load_composed_experiments_from_file
        (get_experiment_card_cfg_from_simple_dict ([] :: int overrides))
        (Some (Some [(''experiments'', Experiments
           [(''x'', \<lparr>exp_group = Some ''g'', exp_base = Some ''cfg'', exp_overrides = Absent\<rparr>),
            (''y'', \<lparr>exp_group = Some ''g'', exp_base = Some ''cfg'', exp_overrides = Absent\<rparr>)])]))
       = Inr (returned, None)
      \<and> save_names returned = [''g.x'', ''g.y''] \<and> distinct (save_names returned))"
proof -
  let ?g = "get_experiment_card_cfg_from_simple_dict ([] :: int overrides)"
  let ?dup = "[(''b.c'', \<lparr>exp_group = Some ''a'', exp_base = Some ''cfg'', exp_overrides = Absent\<rparr>),
          (''c'', \<lparr>exp_group = Some ''a.b'', exp_base = Some ''cfg'', exp_overrides = Absent\<rparr>)]"
  let ?ok = "[(''experiments'', Experiments
           [(''x'', \<lparr>exp_group = Some ''g'', exp_base = Some ''cfg'', exp_overrides = Absent\<rparr>),
            (''y'', \<lparr>exp_group = Some ''g'', exp_base = Some ''cfg'', exp_overrides = Absent\<rparr>)])]"
  note defs = get_experiment_card_cfg_from_simple_dict_def dict_update_def deepcopy_def
    save_names_def save_name_def
  have k: "load_composed_experiments_from_file ?g
      (Some (Some [(''starting_commands'', Scalar ''cd project'')])) = Inl KeyError"
    using duplicate_save_names_rejected [where get_cards = ?g
        and experiment_card_dict = "[(''starting_commands'', Scalar ''cd project'')]"]
    by simp
  obtain cs where cs: "experiments_loop ?g ?dup [] = Inr cs"
    and names: "save_names cs = [''a.b.c'', ''a.b.c'']"
    by (simp add: defs)
  have v: "load_composed_experiments_from_file ?g (Some (Some [(''experiments'', Experiments ?dup)]))
      = Inl ValueError"
    using duplicate_save_names_rejected [where get_cards = ?g
        and experiment_card_dict = "[(''experiments'', Experiments ?dup)]" and experiments = ?dup
        and composed_experiments = cs] cs names
    by simp
  obtain returned where r: "load_composed_experiments_from_file ?g (Some (Some ?ok))
      = Inr (returned, None)" and rn: "save_names returned = [''g.x'', ''g.y'']"
    by (simp add: load_composed_experiments_from_file_def duplicated_names_def Counter_def
        counter_incr_Nil counter_incr_Cons defs)
  have "distinct (save_names returned)"
    using duplicate_save_names_rejected [where get_cards = ?g
        and experiment_card_file = "Some (Some ?ok)" and returned = returned
        and starting_commands = None] r
    by simp
  with k v r rn show ?thesis by blast
qed

text \<open>
  Claim C9 as stated, for every YAML file, fails: an empty file has no key
  \<open>experiments\<close>, \<open>yaml.load\<close> returns \<open>None\<close> for it, and the test
  \<open>"experiments" not in experiment_card_dict\<close> raises \<open>TypeError\<close>, not \<open>KeyError\<close>.
\<close>

theorem empty_document_counterexample:
  "load_composed_experiments_from_file (get_experiment_card_cfg_from_simple_dict ([] :: int overrides))
      (Some None) = Inl TypeError"
  by (simp add: load_composed_experiments_from_file_def)

section \<open>\<open>parse_line\<close> and the first pass\<close>

lemma parse_line_not_xml:
  "parse_line to_int unidecode n None
     = Inr [(''line'', JInt n), (''body'', JNone), (''result'', JStr ''PARSE_FAIL'')]"
  by (simp add: parse_line_def)

lemma parse_line_type_not_int:
  "map_of pd ''PostTypeId'' = Some a \<Longrightarrow> to_int a = None \<Longrightarrow>
     parse_line to_int unidecode n (Some pd)
       = Inr [(''line'', JInt n), (''body'', JNone), (''result'', JStr ''PARSE_FAIL'')]"
  by (simp add: parse_line_def attrib_def)

lemma parse_line_not_valid_type:
  "map_of pd ''PostTypeId'' = Some a \<Longrightarrow> to_int a = Some t \<Longrightarrow> t \<notin> {1, 2, 4, 5} \<Longrightarrow>
     parse_line to_int unidecode n (Some pd)
       = Inr [(''line'', JInt n), (''body'', JNone), (''result'', JStr ''NOT_VALID_TYPE'')]"
  by (simp add: parse_line_def attrib_def)

lemma parse_line_no_body:
  "map_of pd ''PostTypeId'' = Some a \<Longrightarrow> to_int a = Some t \<Longrightarrow> t \<in> {1, 2, 4, 5} \<Longrightarrow>
   map_of pd ''Body'' = Some [] \<Longrightarrow>
     parse_line to_int unidecode n (Some pd)
       = Inr [(''line'', JInt n), (''body'', JNone), (''result'', JStr ''NO_BODY'')]"
  by (auto simp add: parse_line_def attrib_def)

lemma well_formed_rowD:
  assumes "well_formed_row to_int pd"
  shows "\<exists>a b i d s sc. map_of pd ''PostTypeId'' = Some a \<and> map_of pd ''Body'' = Some b
      \<and> map_of pd ''Id'' = Some i \<and> map_of pd ''CreationDate'' = Some d
      \<and> map_of pd ''Score'' = Some s \<and> to_int s = Some sc
      \<and> (to_int a = Some 1 \<longrightarrow> (\<exists>ts. map_of pd ''Tags'' = Some ts))"
    and "\<exists>c. int_of_get to_int pd ''CommentCount'' = Inr c"
    and "\<exists>c. int_of_get to_int pd ''AnswerCount'' = Inr c"
    and "\<exists>c. int_of_get to_int pd ''ViewCount'' = Inr c"
  using assms
  by (auto simp: well_formed_row_def int_of_get_def int_of_attr_def split: option.splits)

lemma parse_line_no_title:
  assumes "well_formed_row to_int pd"
    and "map_of pd ''PostTypeId'' = Some a" "to_int a = Some 1"
    and "map_of pd ''Body'' = Some b" "b \<noteq> []"
    and "map_of pd ''Title'' = None \<or> map_of pd ''Title'' = Some []"
  shows "\<exists>r. parse_line to_int unidecode n (Some pd) = Inr r
    \<and> map_of r ''result'' = Some (JStr ''NO_TITLE'')"
proof -
  from well_formed_rowD [OF assms(1)] assms(2-5) obtain i d s sc ts c where
    "map_of pd ''Id'' = Some i" "map_of pd ''CreationDate'' = Some d"
    "map_of pd ''Score'' = Some s" "to_int s = Some sc" "map_of pd ''Tags'' = Some ts"
    "int_of_get to_int pd ''CommentCount'' = Inr c"
    by auto
  with assms(2-6) show ?thesis
    by (auto simp: parse_line_def parse_question_def attrib_def int_of_attr_def dict_update_def
        Let_def)
qed

lemma parse_line_shape:
  assumes "line = None \<or> (\<exists>pd. line = Some pd \<and> well_formed_row to_int pd)"
  shows "\<exists>r res. parse_line to_int unidecode n line = Inr r
    \<and> map_of r ''result'' = Some res
    \<and> (res = JStr ''PASS'' \<longrightarrow>
         (\<exists>t. map_of r ''type'' = Some (JInt t) \<and> t \<in> {1, 2, 4, 5}
            \<and> (t = 1 \<longrightarrow>
                 (\<exists>i ts s v ac aa. map_of r ''id'' = Some i \<and> map_of r ''tags'' = Some (JList ts)
                    \<and> map_of r ''score'' = Some s \<and> map_of r ''views'' = Some v
                    \<and> map_of r ''answer_count'' = Some ac
                    \<and> map_of r ''accepted_answer'' = Some aa))))"
proof (cases line)
  case None
  then show ?thesis by (simp add: parse_line_def)
next
  case (Some pd)
  with assms have wf: "well_formed_row to_int pd" by simp
  from well_formed_rowD [OF wf] obtain a b i d s sc c1 c2 c3 where f:
    "map_of pd ''PostTypeId'' = Some a" "map_of pd ''Body'' = Some b"
    "map_of pd ''Id'' = Some i" "map_of pd ''CreationDate'' = Some d"
    "map_of pd ''Score'' = Some s" "to_int s = Some sc"
    "to_int a = Some 1 \<longrightarrow> (\<exists>ts. map_of pd ''Tags'' = Some ts)"
    "int_of_get to_int pd ''CommentCount'' = Inr c1"
    "int_of_get to_int pd ''AnswerCount'' = Inr c2"
    "int_of_get to_int pd ''ViewCount'' = Inr c3"
    by blast
  show ?thesis
  proof (cases "to_int a")
    case None
    with f Some show ?thesis by (simp add: parse_line_def attrib_def)
  next
    case ta: (Some t)
    show ?thesis
    proof (cases "t \<in> {1, 2, 4, 5} \<and> b \<noteq> []")
      case False
      show ?thesis
      proof (cases "t \<in> {1, 2, 4, 5}")
        case True
        with False have "map_of pd ''Body'' = Some []" using f(2) by auto
        from parse_line_no_body [where to_int = to_int, OF f(1) ta True this, of unidecode n] Some
        show ?thesis by simp
      next
        case False
        from parse_line_not_valid_type [where to_int = to_int, OF f(1) ta False, of unidecode n] Some
        show ?thesis by simp
      qed
    next
      case True
      show ?thesis
      proof (cases "t = 1")
        case False
        with True f Some ta show ?thesis
          by (simp add: parse_line_def attrib_def int_of_attr_def dict_update_def Let_def)
      next
        case t1: True
        with f ta obtain ts where ts: "map_of pd ''Tags'' = Some ts" by auto
        show ?thesis
        proof (cases "map_of pd ''Title'' = None \<or> map_of pd ''Title'' = Some []")
          case True
          from parse_line_no_title [where to_int = to_int, OF wf f(1) _ f(2) _ True, of unidecode n] ta t1 \<open>t \<in> {1, 2, 4, 5} \<and> b \<noteq> []\<close> Some
          show ?thesis by auto
        next
          case False
          then obtain title where "map_of pd ''Title'' = Some title" "title \<noteq> []" by auto
          with True f Some ta t1 ts show ?thesis
            by (simp add: parse_line_def parse_question_def attrib_def int_of_attr_def
                dict_update_def Let_def)
        qed
      qed
    qed
  qed
qed

lemma first_pass_step_not_pass:
  "map_of parsed ''result'' = Some r \<Longrightarrow> r \<noteq> JStr ''PASS'' \<Longrightarrow>
     first_pass_step pts parsed st = Inr (st\<lparr>failures_counts := counter_incr r (failures_counts st)\<rparr>)"
  by (simp add: first_pass_step_def getitem_def)

lemma set_dict_set: "set (dict_set k v d) \<subseteq> insert (k, v) (set d)"
  by (induction d) (auto split: if_splits)

lemma getitem_in_keys: "k \<in> fst ` set d \<Longrightarrow> \<exists>v. getitem d k = Inr v"
  by (cases "map_of d k") (auto simp: getitem_def map_of_eq_None_iff)

lemma first_pass_step_ok:
  assumes r: "map_of parsed ''result'' = Some res"
    and shape: "res = JStr ''PASS'' \<longrightarrow>
         (\<exists>t. map_of parsed ''type'' = Some (JInt t) \<and> t \<in> {1, 2, 4, 5}
            \<and> (t = 1 \<longrightarrow>
                 (\<exists>i ts s v ac aa. map_of parsed ''id'' = Some i
                    \<and> map_of parsed ''tags'' = Some (JList ts)
                    \<and> map_of parsed ''score'' = Some s \<and> map_of parsed ''views'' = Some v
                    \<and> map_of parsed ''answer_count'' = Some ac
                    \<and> map_of parsed ''accepted_answer'' = Some aa)))"
    and pts: "{JInt 1, JInt 2, JInt 4, JInt 5} \<subseteq> fst ` set pts"
    and inv: "fst ` set pts \<subseteq> fst ` set (post_type_to_file st)"
    and written: "\<forall>kv \<in> set (post_type_to_file st). \<forall>p \<in> set (snd kv).
        map_of p ''result'' = Some (JStr ''PASS'')"
  shows "\<exists>st'. first_pass_step pts parsed st = Inr st'
    \<and> fst ` set pts \<subseteq> fst ` set (post_type_to_file st')
    \<and> (\<forall>kv \<in> set (post_type_to_file st'). \<forall>p \<in> set (snd kv).
        map_of p ''result'' = Some (JStr ''PASS''))"
proof (cases "res = JStr ''PASS''")
  case False
  with r inv written show ?thesis by (simp add: first_pass_step_not_pass)
next
  case True
  with shape obtain t where t: "map_of parsed ''type'' = Some (JInt t)" "t \<in> {1, 2, 4, 5}"
    and q: "t = 1 \<longrightarrow>
                 (\<exists>i ts s v ac aa. map_of parsed ''id'' = Some i
                    \<and> map_of parsed ''tags'' = Some (JList ts)
                    \<and> map_of parsed ''score'' = Some s \<and> map_of parsed ''views'' = Some v
                    \<and> map_of parsed ''answer_count'' = Some ac
                    \<and> map_of parsed ''accepted_answer'' = Some aa)"
    by blast
  from t(2) pts have k: "JInt t \<in> fst ` set pts" by auto
  with inv have k': "JInt t \<in> fst ` set (post_type_to_file st)" by auto
  from getitem_in_keys [OF k] obtain type_name where n: "getitem pts (JInt t) = Inr type_name" ..
  from getitem_in_keys [OF k'] obtain content where
    w: "getitem (post_type_to_file st) (JInt t) = Inr content" ..
  then have c: "(JInt t, content) \<in> set (post_type_to_file st)"
    by (auto simp: getitem_def split: option.splits dest: map_of_SomeD)
  let ?files = "dict_set (JInt t) (content @ [parsed]) (post_type_to_file st)"
  have keys: "fst ` set pts \<subseteq> fst ` set ?files"
    using inv by (auto simp: keys_dict_set)
  have "set ?files \<subseteq> insert (JInt t, content @ [parsed]) (set (post_type_to_file st))"
    by (rule set_dict_set)
  then have pass: "\<forall>kv \<in> set ?files. \<forall>p \<in> set (snd kv). map_of p ''result'' = Some (JStr ''PASS'')"
    using written c r True by fastforce
  show ?thesis
  proof (cases "t = 1")
    case False
    with True r t n w keys pass show ?thesis
      by (simp add: first_pass_step_def getitem_def Let_def)
  next
    case t1: True
    with q obtain i ts s v ac aa where "map_of parsed ''id'' = Some i"
      "map_of parsed ''tags'' = Some (JList ts)"
      "map_of parsed ''score'' = Some s" "map_of parsed ''views'' = Some v"
      "map_of parsed ''answer_count'' = Some ac" "map_of parsed ''accepted_answer'' = Some aa"
      by blast
    with True r t n w keys pass t1 show ?thesis
      by (simp add: first_pass_step_def getitem_def Let_def question_overview_def count_tags_def)
  qed
qed

lemma first_pass_loop_total:
  assumes pts: "{JInt 1, JInt 2, JInt 4, JInt 5} \<subseteq> fst ` set pts"
  shows "\<forall>line \<in> set dump. line = None \<or> (\<exists>pd. line = Some pd \<and> well_formed_row to_int pd) \<Longrightarrow>
    fst ` set pts \<subseteq> fst ` set (post_type_to_file st) \<Longrightarrow>
    \<forall>kv \<in> set (post_type_to_file st). \<forall>p \<in> set (snd kv).
        map_of p ''result'' = Some (JStr ''PASS'') \<Longrightarrow>
    \<exists>st'. first_pass_loop to_int unidecode pts n dump st = Inr st'
      \<and> (\<forall>kv \<in> set (post_type_to_file st'). \<forall>p \<in> set (snd kv).
        map_of p ''result'' = Some (JStr ''PASS''))"
proof (induction dump arbitrary: n st)
  case Nil
  then show ?case by simp
next
  case (Cons line rest)
  from Cons.prems(1) have "line = None \<or> (\<exists>pd. line = Some pd \<and> well_formed_row to_int pd)"
    by simp
  from parse_line_shape [OF this, of unidecode n] obtain r res where
    p: "parse_line to_int unidecode n line = Inr r" and res: "map_of r ''result'' = Some res"
    and shape: "res = JStr ''PASS'' \<longrightarrow>
         (\<exists>t. map_of r ''type'' = Some (JInt t) \<and> t \<in> {1, 2, 4, 5}
            \<and> (t = 1 \<longrightarrow>
                 (\<exists>i ts s v ac aa. map_of r ''id'' = Some i \<and> map_of r ''tags'' = Some (JList ts)
                    \<and> map_of r ''score'' = Some s \<and> map_of r ''views'' = Some v
                    \<and> map_of r ''answer_count'' = Some ac
                    \<and> map_of r ''accepted_answer'' = Some aa)))"
    by blast
  from first_pass_step_ok [OF res shape pts Cons.prems(2) Cons.prems(3)] obtain st1 where
    s: "first_pass_step pts r st = Inr st1"
    and i1: "fst ` set pts \<subseteq> fst ` set (post_type_to_file st1)"
    and i2: "\<forall>kv \<in> set (post_type_to_file st1). \<forall>p \<in> set (snd kv).
        map_of p ''result'' = Some (JStr ''PASS'')"
    by blast
  from Cons.prems(1) have rest: "\<forall>line \<in> set rest.
      line = None \<or> (\<exists>pd. line = Some pd \<and> well_formed_row to_int pd)" by simp
  from Cons.IH [OF rest i1 i2, of "n + 1"] p s show ?case by simp
qed

text \<open>
  Claim C5, for the lines that are not XML and the rows that are well formed.
  \<open>parse_line\<close> returns a result dict for each of them and does not raise. A line that
  is not XML, or a row whose \<open>PostTypeId\<close> is not an integer, gives \<open>PARSE_FAIL\<close>; a type
  outside 1, 2, 4, 5 gives \<open>NOT_VALID_TYPE\<close>; an empty body gives \<open>NO_BODY\<close>; a well-formed
  question with no title, or an empty one, gives \<open>NO_TITLE\<close>. The first pass counts a
  record that is not \<open>PASS\<close> in \<open>failures_counts\<close> and changes nothing else, and on a dump
  of such lines that all decode in the default encoding, with a \<open>POST_TYPE_TO_STR\<close> that
  names the four types, it runs to its end and every record in the files it wrote is a
  \<open>PASS\<close> record.
\<close>

theorem parse_line_results:
  "parse_line to_int unidecode n None
     = Inr [(''line'', JInt n), (''body'', JNone), (''result'', JStr ''PARSE_FAIL'')]
   \<and> (map_of pd ''PostTypeId'' = Some a \<and> to_int a = None \<longrightarrow>
        parse_line to_int unidecode n (Some pd)
          = Inr [(''line'', JInt n), (''body'', JNone), (''result'', JStr ''PARSE_FAIL'')])
   \<and> (map_of pd ''PostTypeId'' = Some a \<and> to_int a = Some t \<and> t \<notin> {1, 2, 4, 5} \<longrightarrow>
        parse_line to_int unidecode n (Some pd)
          = Inr [(''line'', JInt n), (''body'', JNone), (''result'', JStr ''NOT_VALID_TYPE'')])
   \<and> (map_of pd ''PostTypeId'' = Some a \<and> to_int a = Some t \<and> t \<in> {1, 2, 4, 5}
        \<and> map_of pd ''Body'' = Some [] \<longrightarrow>
        parse_line to_int unidecode n (Some pd)
          = Inr [(''line'', JInt n), (''body'', JNone), (''result'', JStr ''NO_BODY'')])
   \<and> (well_formed_row to_int pd \<and> map_of pd ''PostTypeId'' = Some a \<and> to_int a = Some 1
        \<and> map_of pd ''Body'' = Some b \<and> b \<noteq> []
        \<and> (map_of pd ''Title'' = None \<or> map_of pd ''Title'' = Some []) \<longrightarrow>
        (\<exists>r. parse_line to_int unidecode n (Some pd) = Inr r
           \<and> map_of r ''result'' = Some (JStr ''NO_TITLE'')))
   \<and> (line = None \<or> (\<exists>row. line = Some row \<and> well_formed_row to_int row) \<longrightarrow>
        (\<exists>r. parse_line to_int unidecode n line = Inr r))
   \<and> (map_of parsed ''result'' = Some res \<and> res \<noteq> JStr ''PASS'' \<longrightarrow>
        first_pass_step pts parsed st
          = Inr (st\<lparr>failures_counts := counter_incr res (failures_counts st)\<rparr>))
   \<and> ((\<forall>l \<in> set dump. strict_decodes l
          \<and> (xml_attrib l = None \<or> (\<exists>row. xml_attrib l = Some row \<and> well_formed_row to_int row)))
        \<and> {JInt 1, JInt 2, JInt 4, JInt 5} \<subseteq> fst ` set pts \<longrightarrow>
        (\<exists>st'. initial_parse_dump to_int unidecode pts dump debug = Inr st'
           \<and> (\<forall>kv \<in> set (post_type_to_file st'). \<forall>p \<in> set (snd kv).
                 map_of p ''result'' = Some (JStr ''PASS''))))"
proof (intro conjI impI)
  show "parse_line to_int unidecode n None
     = Inr [(''line'', JInt n), (''body'', JNone), (''result'', JStr ''PARSE_FAIL'')]"
    by (rule parse_line_not_xml)
  show "parse_line to_int unidecode n (Some pd)
          = Inr [(''line'', JInt n), (''body'', JNone), (''result'', JStr ''PARSE_FAIL'')]"
    if "map_of pd ''PostTypeId'' = Some a \<and> to_int a = None"
    using that by (simp add: parse_line_type_not_int)
  show "parse_line to_int unidecode n (Some pd)
          = Inr [(''line'', JInt n), (''body'', JNone), (''result'', JStr ''NOT_VALID_TYPE'')]"
    if "map_of pd ''PostTypeId'' = Some a \<and> to_int a = Some t \<and> t \<notin> {1, 2, 4, 5}"
    using that by (simp add: parse_line_not_valid_type)
  show "parse_line to_int unidecode n (Some pd)
          = Inr [(''line'', JInt n), (''body'', JNone), (''result'', JStr ''NO_BODY'')]"
    if "map_of pd ''PostTypeId'' = Some a \<and> to_int a = Some t \<and> t \<in> {1, 2, 4, 5}
        \<and> map_of pd ''Body'' = Some []"
    using that parse_line_no_body [where to_int = to_int and pd = pd and a = a and t = t]
    by blast
  show "\<exists>r. parse_line to_int unidecode n (Some pd) = Inr r
           \<and> map_of r ''result'' = Some (JStr ''NO_TITLE'')"
    if "well_formed_row to_int pd \<and> map_of pd ''PostTypeId'' = Some a \<and> to_int a = Some 1
        \<and> map_of pd ''Body'' = Some b \<and> b \<noteq> []
        \<and> (map_of pd ''Title'' = None \<or> map_of pd ''Title'' = Some [])"
    using that parse_line_no_title [where to_int = to_int and pd = pd and a = a and b = b]
    by blast
  show "\<exists>r. parse_line to_int unidecode n line = Inr r"
    if "line = None \<or> (\<exists>row. line = Some row \<and> well_formed_row to_int row)"
    using parse_line_shape [OF that, of unidecode n] by blast
  show "first_pass_step pts parsed st
          = Inr (st\<lparr>failures_counts := counter_incr res (failures_counts st)\<rparr>)"
    if "map_of parsed ''result'' = Some res \<and> res \<noteq> JStr ''PASS''"
    using that by (simp add: first_pass_step_not_pass)
  show "\<exists>st'. initial_parse_dump to_int unidecode pts dump debug = Inr st'
           \<and> (\<forall>kv \<in> set (post_type_to_file st'). \<forall>p \<in> set (snd kv).
                 map_of p ''result'' = Some (JStr ''PASS''))"
    if h: "(\<forall>l \<in> set dump. strict_decodes l
          \<and> (xml_attrib l = None \<or> (\<exists>row. xml_attrib l = Some row \<and> well_formed_row to_int row)))
        \<and> {JInt 1, JInt 2, JInt 4, JInt 5} \<subseteq> fst ` set pts"
  proof -
    let ?lines = "map xml_attrib (if debug then take 2500 dump else dump)"
    from h have l: "\<forall>l \<in> set ?lines. l = None \<or> (\<exists>row. l = Some row \<and> well_formed_row to_int row)"
      by (auto dest: in_set_takeD)
    from h have pts: "{JInt 1, JInt 2, JInt 4, JInt 5} \<subseteq> fst ` set pts" by simp
    from h have dec: "list_all strict_decodes dump" by (simp add: list_all_iff)
    have "\<exists>st'. first_pass_loop to_int unidecode pts 0 ?lines
        \<lparr>overview_data = [], failures_counts = [], post_type_counter = [], tag_counter = [],
         post_type_to_file = map (\<lambda>kv. (fst kv, [])) pts\<rparr> = Inr st'
      \<and> (\<forall>kv \<in> set (post_type_to_file st'). \<forall>p \<in> set (snd kv).
           map_of p ''result'' = Some (JStr ''PASS''))"
      by (rule first_pass_loop_total [OF pts l]) (auto simp: image_image)
    then show ?thesis
      by (simp add: initial_parse_dump_def dec)
  qed
qed

text \<open>
  The theorem on rows of each kind, and on a dump of four lines: one that is not XML, a
  question, a question without title and an answer.
\<close>

theorem parse_line_results_witness:
  "parse_line py_int id 1 (Some [(''Id'', ''7''), (''PostTypeId'', ''x'')])
     = Inr [(''line'', JInt 1), (''body'', JNone), (''result'', JStr ''PARSE_FAIL'')]
   \<and> parse_line py_int id 2 (Some [(''Id'', ''7''), (''PostTypeId'', ''3'')])
     = Inr [(''line'', JInt 2), (''body'', JNone), (''result'', JStr ''NOT_VALID_TYPE'')]
   \<and> parse_line py_int id 3 (Some [(''Id'', ''7''), (''PostTypeId'', ''2''), (''Body'', [])])
     = Inr [(''line'', JInt 3), (''body'', JNone), (''result'', JStr ''NO_BODY'')]
   \<and> (\<exists>r. parse_line py_int id 4 (Some [(''Id'', ''6''), (''PostTypeId'', ''1''), (''CreationDate'', ''2008-07-31''), (''Score'', ''3''), (''Body'', ''Why?''), (''Tags'', ''<css>'')]) = Inr r
        \<and> map_of r ''result'' = Some (JStr ''NO_TITLE''))
   \<and> (\<exists>r. parse_line py_int id 5 (Some [(''Id'', ''9''), (''PostTypeId'', ''2''), (''ParentId'', ''4''), (''CreationDate'', ''2008-08-01''), (''Score'', ''12''), (''Body'', ''Cast it.'')]) = Inr r)
   \<and> first_pass_step post_type_names
        [(''line'', JInt 2), (''body'', JNone), (''result'', JStr ''NOT_VALID_TYPE'')]
        \<lparr>overview_data = [], failures_counts = [], post_type_counter = [], tag_counter = [],
         post_type_to_file = []\<rparr>
     = Inr \<lparr>overview_data = [], failures_counts = [(JStr ''NOT_VALID_TYPE'', 1)],
            post_type_counter = [], tag_counter = [], post_type_to_file = []\<rparr>
   \<and> (\<exists>st'. initial_parse_dump py_int id post_type_names
          [\<lparr>strict_decodes = True, xml_attrib = None\<rparr>,
           \<lparr>strict_decodes = True, xml_attrib = Some [(''Id'', ''4''), (''PostTypeId'', ''1''), (''CreationDate'', ''2008-07-31''), (''Score'', ''7''), (''Body'', ''How?''), (''Title'', ''Casting''), (''Tags'', ''<c#><types>''), (''AnswerCount'', ''2'')]\<rparr>,
           \<lparr>strict_decodes = True, xml_attrib = Some [(''Id'', ''6''), (''PostTypeId'', ''1''), (''CreationDate'', ''2008-07-31''), (''Score'', ''3''), (''Body'', ''Why?''), (''Tags'', ''<css>'')]\<rparr>,
           \<lparr>strict_decodes = True, xml_attrib = Some [(''Id'', ''9''), (''PostTypeId'', ''2''), (''ParentId'', ''4''), (''CreationDate'', ''2008-08-01''), (''Score'', ''12''), (''Body'', ''Cast it.'')]\<rparr>] False = Inr st'
        \<and> list_all (\<lambda>kv. list_all (\<lambda>p. map_of p ''result'' = Some (JStr ''PASS'')) (snd kv))
             (post_type_to_file st'))"
proof -
  let ?q1 = "[(''Id'', ''4''), (''PostTypeId'', ''1''), (''CreationDate'', ''2008-07-31''), (''Score'', ''7''), (''Body'', ''How?''), (''Title'', ''Casting''), (''Tags'', ''<c#><types>''), (''AnswerCount'', ''2'')]"
  let ?q2 = "[(''Id'', ''6''), (''PostTypeId'', ''1''), (''CreationDate'', ''2008-07-31''), (''Score'', ''3''), (''Body'', ''Why?''), (''Tags'', ''<css>'')]"
  let ?a1 = "[(''Id'', ''9''), (''PostTypeId'', ''2''), (''ParentId'', ''4''), (''CreationDate'', ''2008-08-01''), (''Score'', ''12''), (''Body'', ''Cast it.'')]"
  have d: "py_int ''x'' = None" "py_int ''1'' = Some 1" "py_int ''2'' = Some 2"
    "py_int ''3'' = Some 3" "py_int ''7'' = Some 7" "py_int ''12'' = Some 12"
    by (simp_all add: py_int_def strip_def isspace_def digits_def isdigit_def digit_value_def)
  have wf: "well_formed_row py_int ?q1" "well_formed_row py_int ?q2" "well_formed_row py_int ?a1"
    by (simp_all add: well_formed_row_def d)
  note t = parse_line_results [where to_int = py_int and unidecode = id]
  have 1: "parse_line py_int id 1 (Some [(''Id'', ''7''), (''PostTypeId'', ''x'')])
     = Inr [(''line'', JInt 1), (''body'', JNone), (''result'', JStr ''PARSE_FAIL'')]"
    using t [where pd = "[(''Id'', ''7''), (''PostTypeId'', ''x'')]" and a = "''x''" and n = 1]
    by (simp add: d)
  have 2: "parse_line py_int id 2 (Some [(''Id'', ''7''), (''PostTypeId'', ''3'')])
     = Inr [(''line'', JInt 2), (''body'', JNone), (''result'', JStr ''NOT_VALID_TYPE'')]"
    using t [where pd = "[(''Id'', ''7''), (''PostTypeId'', ''3'')]" and a = "''3''" and n = 2 and t = 3]
    by (simp add: d)
  have 3: "parse_line py_int id 3 (Some [(''Id'', ''7''), (''PostTypeId'', ''2''), (''Body'', [])])
     = Inr [(''line'', JInt 3), (''body'', JNone), (''result'', JStr ''NO_BODY'')]"
    using t [where pd = "[(''Id'', ''7''), (''PostTypeId'', ''2''), (''Body'', [])]" and a = "''2''"
        and n = 3 and t = 2]
    by (simp add: d)
  have 4: "\<exists>r. parse_line py_int id 4 (Some ?q2) = Inr r
        \<and> map_of r ''result'' = Some (JStr ''NO_TITLE'')"
    using t [where pd = ?q2 and a = "''1''" and n = 4 and b = "''Why?''"] wf
    by (simp add: d)
  have 5: "\<exists>r. parse_line py_int id 5 (Some ?a1) = Inr r"
    using t [where line = "Some ?a1" and n = 5] wf by simp
  have 6: "first_pass_step post_type_names
        [(''line'', JInt 2), (''body'', JNone), (''result'', JStr ''NOT_VALID_TYPE'')]
        \<lparr>overview_data = [], failures_counts = [], post_type_counter = [], tag_counter = [],
         post_type_to_file = []\<rparr>
     = Inr \<lparr>overview_data = [], failures_counts = [(JStr ''NOT_VALID_TYPE'', 1)],
            post_type_counter = [], tag_counter = [], post_type_to_file = []\<rparr>"
    using t [where parsed = "[(''line'', JInt 2), (''body'', JNone), (''result'', JStr ''NOT_VALID_TYPE'')]"
        and res = "JStr ''NOT_VALID_TYPE''" and pts = post_type_names
        and st = "\<lparr>overview_data = [], failures_counts = [], post_type_counter = [], tag_counter = [],
         post_type_to_file = []\<rparr>"]
    by (simp add: counter_incr_def)
  have 7: "\<exists>st'. initial_parse_dump py_int id post_type_names
          [\<lparr>strict_decodes = True, xml_attrib = None\<rparr>,
           \<lparr>strict_decodes = True, xml_attrib = Some ?q1\<rparr>,
           \<lparr>strict_decodes = True, xml_attrib = Some ?q2\<rparr>,
           \<lparr>strict_decodes = True, xml_attrib = Some ?a1\<rparr>] False = Inr st'
        \<and> list_all (\<lambda>kv. list_all (\<lambda>p. map_of p ''result'' = Some (JStr ''PASS'')) (snd kv))
             (post_type_to_file st')"
    using t [where dump = "[\<lparr>strict_decodes = True, xml_attrib = None\<rparr>,
           \<lparr>strict_decodes = True, xml_attrib = Some ?q1\<rparr>,
           \<lparr>strict_decodes = True, xml_attrib = Some ?q2\<rparr>,
           \<lparr>strict_decodes = True, xml_attrib = Some ?a1\<rparr>]" and pts = post_type_names
        and debug = False] wf
    by (simp add: post_type_names_def list_all_iff)
  from 1 2 3 4 5 6 7 show ?thesis by blast
qed

text \<open>
  Claim C5 as stated, for every line, fails: the row
  \<open><row Id="5" PostTypeId="2" Body="Cast it." />\<close> has no attribute \<open>CreationDate\<close>, which
  \<open>parse_line\<close> reads by subscript as it reads \<open>Id\<close> and \<open>Score\<close>, where the attributes that
  may be missing are read with \<open>get\<close> and a default: \<open>post_dict['CreationDate']\<close> raises
  \<open>KeyError\<close>, nothing catches it, and the first pass stops with it.
\<close>

theorem row_without_creation_date_counterexample:
  "parse_line py_int id 0
     (Some [(''Id'', ''5''), (''PostTypeId'', ''2''), (''Body'', ''Cast it.'')]) = Inl KeyError
   \<and> initial_parse_dump py_int id post_type_names
        [\<lparr>strict_decodes = True, xml_attrib = None\<rparr>,
         \<lparr>strict_decodes = True,
          xml_attrib = Some [(''Id'', ''5''), (''PostTypeId'', ''2''), (''Body'', ''Cast it.'')]\<rparr>]
        False = Inl KeyError"
  by (simp add: initial_parse_dump_def parse_line_def attrib_def py_int_def strip_def isspace_def
      digits_def isdigit_def digit_value_def first_pass_step_def getitem_def counter_incr_def
      post_type_names_def)

section \<open>\<open>align_tag_file\<close>: answers under their questions\<close>

lemma children_of_dict_set:
  "children_of (dict_set p v d) k = (if k = p then v else children_of d k)"
  by (simp add: children_of_def map_of_dict_set)

lemma children_of_touch: "children_of (touch p d) k = children_of d k"
  by (auto simp: children_of_def touch_def map_add_def split: option.splits if_splits)

lemma orphan_sum_touch:
  "sum_list (map (\<lambda>kv. if fst kv \<in> Q then 0 else length (snd kv)) (touch p d))
     = sum_list (map (\<lambda>kv. if fst kv \<in> Q then 0 else length (snd kv)) d)"
  by (simp add: touch_def)

lemma orphan_sum_dict_set:
  "sum_list (map (\<lambda>kv. if fst kv \<in> Q then 0 else length (snd kv)) (dict_set p v d))
       + (if p \<in> Q then 0 else length (children_of d p))
     = sum_list (map (\<lambda>kv. if fst kv \<in> Q then 0 else length (snd kv)) d)
       + (if p \<in> Q then 0 else length v)"
  by (induction d) (auto simp: children_of_def)

lemma align_line_question:
  assumes "map_of l ''type'' = Some (JInt 1)" "map_of l ''id'' \<noteq> None" "hashable (id_of l)"
    "''answers'' \<notin> fst ` set l"
  shows "align_line l st =
     Inr (st\<lparr>question_dict := dict_set (id_of l) (Shared (id_of l) l) (question_dict st),
             orphaned_children := touch (id_of l) (orphaned_children st)\<rparr>)"
  using assms by (auto simp: align_line_def getitem_def id_of_def)

lemma align_line_answer:
  assumes "map_of l ''type'' \<noteq> None" "map_of l ''type'' \<noteq> Some (JInt 1)"
    "map_of l ''id'' \<noteq> None" "hashable (id_of l)"
    "map_of l ''parent_id'' \<noteq> None" "hashable (parent_of l)"
  shows "align_line l st =
     Inr (st\<lparr>orphaned_children :=
             dict_set (parent_of l)
               (dict_set (id_of l) l (children_of (orphaned_children st) (parent_of l)))
               (touch (parent_of l) (orphaned_children st))\<rparr>)"
  using assms by (auto simp: align_line_def getitem_def id_of_def parent_of_def)

lemma answers_for_snoc:
  "answers_for (pre @ [l]) k =
     answers_for pre k @ (if \<not> is_question l \<and> parent_of l = k then [(id_of l, l)] else [])"
  by (simp add: answers_for_def)

lemma answers_for_keys: "fst ` set (answers_for pre k) \<subseteq> id_of ` set pre"
  by (auto simp: answers_for_def)

lemma align_loop_invariant:
  fixes Q :: "json set"
  shows "shard_records (pre @ rest) \<Longrightarrow>
    question_dict st = map (\<lambda>q. (id_of q, Shared (id_of q) q)) (filter is_question pre) \<Longrightarrow>
    (\<forall>k. children_of (orphaned_children st) k = answers_for pre k) \<Longrightarrow>
    sum_list (map (\<lambda>kv. if fst kv \<in> Q then 0 else length (snd kv)) (orphaned_children st))
      = length (filter (\<lambda>a. \<not> is_question a \<and> parent_of a \<notin> Q) pre) \<Longrightarrow>
    \<exists>st'. align_loop rest st = Inr st'
      \<and> question_dict st' =
          map (\<lambda>q. (id_of q, Shared (id_of q) q)) (filter is_question (pre @ rest))
      \<and> (\<forall>k. children_of (orphaned_children st') k = answers_for (pre @ rest) k)
      \<and> sum_list (map (\<lambda>kv. if fst kv \<in> Q then 0 else length (snd kv)) (orphaned_children st'))
          = length (filter (\<lambda>a. \<not> is_question a \<and> parent_of a \<notin> Q) (pre @ rest))"
proof (induction rest arbitrary: pre st)
  case Nil
  then show ?case by simp
next
  case (Cons l rest)
  let ?oc = "orphaned_children st"
  from Cons.prems(1) have sr: "shard_records ((pre @ [l]) @ rest)" by simp
  from Cons.prems(1) have fresh: "id_of l \<notin> id_of ` set pre"
    by (auto simp: shard_records_def)
  from Cons.prems(1) have ok: "map_of l ''type'' \<noteq> None" "map_of l ''id'' \<noteq> None"
    "hashable (id_of l)"
    "is_question l \<longrightarrow> ''answers'' \<notin> fst ` set l"
    "\<not> is_question l \<longrightarrow> map_of l ''parent_id'' \<noteq> None \<and> hashable (parent_of l)"
    by (auto simp: shard_records_def)
  show ?case
  proof (cases "is_question l")
    case True
    let ?st = "st\<lparr>question_dict := dict_set (id_of l) (Shared (id_of l) l) (question_dict st),
             orphaned_children := touch (id_of l) ?oc\<rparr>"
    from True ok have step: "align_line l st = Inr ?st"
      by (intro align_line_question) (auto simp: is_question_def)
    have "id_of l \<notin> fst ` set (question_dict st)"
      using fresh by (auto simp: Cons.prems(2))
    then have q: "question_dict ?st =
        map (\<lambda>q. (id_of q, Shared (id_of q) q)) (filter is_question (pre @ [l]))"
      using True by (simp add: dict_set_fresh Cons.prems(2))
    have c: "\<forall>k. children_of (orphaned_children ?st) k = answers_for (pre @ [l]) k"
      using True Cons.prems(3) by (simp add: children_of_touch answers_for_snoc)
    have s: "sum_list (map (\<lambda>kv. if fst kv \<in> Q then 0 else length (snd kv)) (orphaned_children ?st))
        = length (filter (\<lambda>a. \<not> is_question a \<and> parent_of a \<notin> Q) (pre @ [l]))"
      using True Cons.prems(4) by (simp add: orphan_sum_touch)
    from Cons.IH [OF sr q c s] step show ?thesis by simp
  next
    case False
    let ?p = "parent_of l"
    let ?v = "dict_set (id_of l) l (children_of ?oc ?p)"
    let ?st = "st\<lparr>orphaned_children := dict_set ?p ?v (touch ?p ?oc)\<rparr>"
    from False ok have step: "align_line l st = Inr ?st"
      by (intro align_line_answer) (auto simp: is_question_def)
    have "id_of l \<notin> fst ` set (answers_for pre ?p)"
      using fresh answers_for_keys [of pre ?p] by auto
    then have v': "dict_set (id_of l) l (answers_for pre ?p) = answers_for pre ?p @ [(id_of l, l)]"
      by (simp add: dict_set_fresh)
    then have v: "?v = answers_for pre ?p @ [(id_of l, l)]"
      by (simp add: Cons.prems(3))
    have q: "question_dict ?st =
        map (\<lambda>q. (id_of q, Shared (id_of q) q)) (filter is_question (pre @ [l]))"
      using False by (simp add: Cons.prems(2))
    have c: "\<forall>k. children_of (orphaned_children ?st) k = answers_for (pre @ [l]) k"
      using False Cons.prems(3)
      by (simp add: children_of_dict_set children_of_touch answers_for_snoc v')
    have "sum_list (map (\<lambda>kv. if fst kv \<in> Q then 0 else length (snd kv)) (dict_set ?p ?v (touch ?p ?oc)))
         + (if ?p \<in> Q then 0 else length (children_of (touch ?p ?oc) ?p))
       = sum_list (map (\<lambda>kv. if fst kv \<in> Q then 0 else length (snd kv)) (touch ?p ?oc))
         + (if ?p \<in> Q then 0 else length ?v)"
      by (rule orphan_sum_dict_set)
    then have s: "sum_list (map (\<lambda>kv. if fst kv \<in> Q then 0 else length (snd kv)) (orphaned_children ?st))
        = length (filter (\<lambda>a. \<not> is_question a \<and> parent_of a \<notin> Q) (pre @ [l]))"
      using False Cons.prems(4)
      by (simp add: orphan_sum_touch children_of_touch v' Cons.prems(3) split: if_splits)
    from Cons.IH [OF sr q c s] step show ?thesis by simp
  qed
qed

lemma orphans_loop_shared:
  "\<forall>kv \<in> set qd. \<exists>q l. snd kv = Shared q l \<Longrightarrow>
     orphans_loop oc qd n
       = Inr (qd, n + sum_list (map (\<lambda>kv. if fst kv \<in> fst ` set qd then 0 else length (snd kv)) oc))"
proof (induction oc arbitrary: n)
  case Nil
  then show ?case by simp
next
  case (Cons kv oc)
  obtain k v where kv: "kv = (k, v)" by (cases kv)
  show ?case
  proof (cases "map_of qd k")
    case None
    then have "k \<notin> fst ` set qd" by (simp add: map_of_eq_None_iff)
    with None Cons show ?thesis by (simp add: kv)
  next
    case (Some e)
    then have "(k, e) \<in> set qd" by (rule map_of_SomeD)
    with Cons.prems obtain q l where "e = Shared q l" and "k \<in> fst ` set qd" by force
    with Some Cons show ?thesis by (simp add: kv)
  qed
qed

text \<open>
  Claim C4, for a shard whose records have pairwise distinct ids. \<open>align_tag_file\<close>
  rewrites the shard to one line per question of the input, in the order of the
  questions; the \<open>answers\<close> of a question map the \<open>id\<close> of every other record whose
  \<open>parent_id\<close> is the question's \<open>id\<close> to that record, whether the record stands before
  or after the question; and the number of orphans that it returns is the number of
  the other records whose \<open>parent_id\<close> is the \<open>id\<close> of no question. These records are in
  no line that is written.
\<close>

theorem align_tag_file_aligned:
  assumes "shard_records lines"
  shows "align_tag_file lines = Inr (aligned lines, orphan_count lines)"
proof -
  let ?Q = "id_of ` set (filter is_question lines)"
  from align_loop_invariant [of "[]" lines "\<lparr>question_dict = [], orphaned_children = []\<rparr>" ?Q] assms
  obtain st where loop: "align_loop lines \<lparr>question_dict = [], orphaned_children = []\<rparr> = Inr st"
    and q: "question_dict st = map (\<lambda>q. (id_of q, Shared (id_of q) q)) (filter is_question lines)"
    and c: "\<forall>k. children_of (orphaned_children st) k = answers_for lines k"
    and s: "sum_list (map (\<lambda>kv. if fst kv \<in> ?Q then 0 else length (snd kv)) (orphaned_children st))
        = length (filter (\<lambda>a. \<not> is_question a \<and> parent_of a \<notin> ?Q) lines)"
    by (auto simp: children_of_def answers_for_def)
  have keys: "fst ` set (question_dict st) = ?Q"
    by (force simp: q)
  have shared: "\<forall>kv \<in> set (question_dict st). \<exists>q l. snd kv = Shared q l"
    by (auto simp: q)
  have "orphans_loop (orphaned_children st) (question_dict st) 0
      = Inr (question_dict st, 0 + sum_list (map (\<lambda>kv. if fst kv \<in> fst ` set (question_dict st)
          then 0 else length (snd kv)) (orphaned_children st)))"
    by (rule orphans_loop_shared [OF shared])
  then have "orphans_loop (orphaned_children st) (question_dict st) 0
      = Inr (question_dict st, orphan_count lines)"
    by (simp only: keys s) (simp add: orphan_count_def)
  moreover have "map (\<lambda>kv. written_line (orphaned_children st) (snd kv)) (question_dict st)
      = aligned lines"
    by (simp add: q aligned_def written_line_def c comp_def)
  ultimately show ?thesis
    by (simp add: align_tag_file_def loop)
qed

text \<open>
  The theorem on a shard of five lines: an answer before its question, the question, an
  answer after it, an answer to a question that is not in the shard, and a question
  without answers.
\<close>

theorem align_tag_file_aligned_witness:
  "shard_records
     [[(''type'', JInt 2), (''id'', JStr ''9''), (''parent_id'', JStr ''4'')],
      [(''type'', JInt 1), (''id'', JStr ''4''), (''title'', JStr ''Casting'')],
      [(''type'', JInt 2), (''id'', JStr ''10''), (''parent_id'', JStr ''4'')],
      [(''type'', JInt 2), (''id'', JStr ''11''), (''parent_id'', JStr ''5'')],
      [(''type'', JInt 1), (''id'', JStr ''6''), (''title'', JStr ''Fonts'')]]
   \<and> align_tag_file
     [[(''type'', JInt 2), (''id'', JStr ''9''), (''parent_id'', JStr ''4'')],
      [(''type'', JInt 1), (''id'', JStr ''4''), (''title'', JStr ''Casting'')],
      [(''type'', JInt 2), (''id'', JStr ''10''), (''parent_id'', JStr ''4'')],
      [(''type'', JInt 2), (''id'', JStr ''11''), (''parent_id'', JStr ''5'')],
      [(''type'', JInt 1), (''id'', JStr ''6''), (''title'', JStr ''Fonts'')]]
     = Inr ([[(''answers'', JDict
                [(JStr ''9'', JObject [(''type'', JInt 2), (''id'', JStr ''9''), (''parent_id'', JStr ''4'')]),
                 (JStr ''10'', JObject [(''type'', JInt 2), (''id'', JStr ''10''), (''parent_id'', JStr ''4'')])]),
              (''type'', JInt 1), (''id'', JStr ''4''), (''title'', JStr ''Casting'')],
             [(''answers'', JDict []),
              (''type'', JInt 1), (''id'', JStr ''6''), (''title'', JStr ''Fonts'')]], 1)"
proof -
  have s: "shard_records
     [[(''type'', JInt 2), (''id'', JStr ''9''), (''parent_id'', JStr ''4'')],
      [(''type'', JInt 1), (''id'', JStr ''4''), (''title'', JStr ''Casting'')],
      [(''type'', JInt 2), (''id'', JStr ''10''), (''parent_id'', JStr ''4'')],
      [(''type'', JInt 2), (''id'', JStr ''11''), (''parent_id'', JStr ''5'')],
      [(''type'', JInt 1), (''id'', JStr ''6''), (''title'', JStr ''Fonts'')]]"
    by (simp add: shard_records_def is_question_def id_of_def parent_of_def hashable_def)
  from align_tag_file_aligned [OF s] s show ?thesis
    by (simp add: aligned_def orphan_count_def answers_for_def children_json_def is_question_def
        id_of_def parent_of_def)
qed

text \<open>
  Claim C4 as stated, for every shard, fails: \<open>question_dict\<close> is keyed by the \<open>id\<close>, so
  of two question records with the same \<open>id\<close> only the second is written, and the
  rewritten shard has one line for two questions.
\<close>

theorem questions_with_one_id_counterexample:
  "align_tag_file
     [[(''type'', JInt 1), (''id'', JStr ''4''), (''title'', JStr ''Casting'')],
      [(''type'', JInt 1), (''id'', JStr ''4''), (''title'', JStr ''Fonts'')]]
     = Inr ([[(''answers'', JDict []), (''type'', JInt 1), (''id'', JStr ''4''),
              (''title'', JStr ''Fonts'')]], 0)"
  by (simp add: align_tag_file_def align_line_def getitem_def hashable_def touch_def
      written_line_def children_json_def children_of_def)

section \<open>\<open>TutorialHTMLParser\<close>: the parsed sections\<close>

lemma yields_have_fields:
  "Yield n d \<in> set (parse_section p u sec par idc) \<Longrightarrow>
     map fst d = [''id'', ''parent_id'', ''section_id'', ''section_str_id'', ''child_idx'',
                  ''section_title'', ''text'', ''tag'']
     \<and> map_of d ''id'' = Some (JInt n)"
  "Yield n d \<in> set (children_loop p u sid par secid i cs title idc) \<Longrightarrow>
     map fst d = [''id'', ''parent_id'', ''section_id'', ''section_str_id'', ''child_idx'',
                  ''section_title'', ''text'', ''tag'']
     \<and> map_of d ''id'' = Some (JInt n)"
proof (induction p u sec par idc and p u sid par secid i cs title idc
    rule: parse_section_children_loop.induct)
  case (1 p unidecode m cl at cs parent_id id_counter)
  then show ?case by (auto split: option.splits)
next
  case (2 p unidecode s parent_id id_counter)
  then show ?case by simp
next
  case (3 p unidecode s parent_id id_counter)
  then show ?case by simp
next
  case (4 p unidecode section_str_id parent_id section_id i section_title id_counter)
  then show ?case by simp
next
  case (5 p unidecode section_str_id parent_id section_id i tag rest section_title id_counter)
  show ?case
  proof (cases "is_tag tag \<and> name_of tag \<notin> set header_tag \<and> name_of tag \<notin> set IGNORED_TAGS")
    case False
    with "5.prems" "5.IH"(1,2,3) show ?thesis
      by (auto split: if_splits)
  next
    case outer: True
    show ?thesis
    proof (cases "get_type_of_tag p tag = SECTION")
      case True
      with outer "5.prems" "5.IH"(4,5) show ?thesis
        by (auto simp: Let_def split: if_splits)
    next
      case False
      show ?thesis
      proof (cases "strip (unidecode (get_text tag)) = []")
        case True
        with outer False "5.prems" "5.IH"(6) show ?thesis
          by auto
      next
        case nonempty: False
        with outer False "5.prems" obtain t where t: "section_title = Some t"
          by (cases section_title) auto
        show ?thesis
        proof (cases "get_type_of_tag p tag")
          case PARAGRAPH
          with outer False nonempty t "5.prems" "5.IH"(7) show ?thesis by auto
        next
          case CODE
          with outer False nonempty t "5.prems" "5.IH"(8) show ?thesis
            by (auto split: sum.splits)
        next
          case SECTION
          with False show ?thesis by simp
        next
          case LIST
          with outer False nonempty t "5.prems" "5.IH"(9) show ?thesis by auto
        next
          case IGNORED
          with outer False nonempty t "5.prems" "5.IH"(10) show ?thesis by auto
        next
          case UNKNOWN
          with outer False nonempty t "5.prems" show ?thesis by auto
        qed
      qed
    qed
  qed
qed

lemma sections_loop_runs:
  "run \<in> set (sections_loop p u secs c) \<Longrightarrow> \<exists>s c'. run = parse_section p u s 0 c'"
  by (induction secs arbitrary: c) (auto simp: Let_def split: if_splits)

lemma yielded_iff: "d \<in> set (yielded run) \<longleftrightarrow> (\<exists>n. Yield n d \<in> set run)"
  by (auto simp: yielded_def split: event.splits)

lemma call_sections:
  assumes "fst (call p BeautifulSoup u raw_html logger) = Inr parsed_sections"
    and "sub \<in> set parsed_sections" and "d \<in> set sub"
  shows "\<exists>s c n. Yield n d \<in> set (parse_section p u s 0 c)"
proof -
  from assms(1) obtain secs where
    "parsed_sections = map yielded (sections_loop p u secs 0)"
    by (auto simp: call_def Let_def split: sum.splits option.splits)
  with assms(2) obtain run where "run \<in> set (sections_loop p u secs 0)" and "sub = yielded run"
    by auto
  with assms(3) sections_loop_runs [of run p u secs 0] show ?thesis
    by (auto simp: yielded_iff)
qed

text \<open>
  Claim C8. A call of a registered parser on \<open>raw_html\<close> returns the same, or raises the
  same, whatever has been logged before it, which is the only state outside the call
  that the code touches: the parser object has no attribute that a call writes, the
  counters are local to the call, and the soup that \<open>parse_title\<close> changes is made anew by
  every call. So a second call on the same \<open>raw_html\<close>, run after the first, returns what
  the first returned. And every dict of the sections that a call returns, as every dict
  that \<open>parse_section\<close> yields, has the keys \<open>id\<close>, \<open>parent_id\<close>, \<open>section_id\<close>,
  \<open>section_title\<close>, \<open>tag\<close> and \<open>text\<close>.
\<close>

theorem tutorial_parser_pure:
  "fst (call p BeautifulSoup unidecode raw_html logger)
     = fst (call p BeautifulSoup unidecode raw_html logger')
   \<and> fst (call p BeautifulSoup unidecode raw_html
            (snd (call p BeautifulSoup unidecode raw_html logger)))
     = fst (call p BeautifulSoup unidecode raw_html logger)
   \<and> (\<forall>parsed_sections sub d.
         fst (call p BeautifulSoup unidecode raw_html logger) = Inr parsed_sections
         \<and> sub \<in> set parsed_sections \<and> d \<in> set sub \<longrightarrow>
         {''id'', ''parent_id'', ''section_id'', ''section_title'', ''tag'', ''text''}
           \<subseteq> fst ` set d)
   \<and> (\<forall>sec pid counter n d.
         Yield n d \<in> set (parse_section p unidecode sec pid counter) \<longrightarrow>
         {''id'', ''parent_id'', ''section_id'', ''section_title'', ''tag'', ''text''}
           \<subseteq> fst ` set d)"
proof (intro conjI allI impI)
  show "fst (call p BeautifulSoup unidecode raw_html logger)
     = fst (call p BeautifulSoup unidecode raw_html logger')"
    by (simp add: call_def Let_def split: sum.splits)
  show "fst (call p BeautifulSoup unidecode raw_html
            (snd (call p BeautifulSoup unidecode raw_html logger)))
     = fst (call p BeautifulSoup unidecode raw_html logger)"
    by (simp add: call_def Let_def split: sum.splits)
  show "{''id'', ''parent_id'', ''section_id'', ''section_title'', ''tag'', ''text''}
           \<subseteq> fst ` set d"
    if h: "fst (call p BeautifulSoup unidecode raw_html logger) = Inr parsed_sections
         \<and> sub \<in> set parsed_sections \<and> d \<in> set sub"
    for parsed_sections sub d
  proof -
    from h call_sections [of p BeautifulSoup unidecode raw_html logger parsed_sections sub d]
    obtain s c n where "Yield n d \<in> set (parse_section p unidecode s 0 c)" by blast
    from yields_have_fields(1) [OF this]
    have "set (map fst d) = set [''id'', ''parent_id'', ''section_id'', ''section_str_id'',
        ''child_idx'', ''section_title'', ''text'', ''tag'']"
      by simp
    then show ?thesis by (simp only: set_map) auto
  qed
  show "{''id'', ''parent_id'', ''section_id'', ''section_title'', ''tag'', ''text''}
           \<subseteq> fst ` set d"
    if "Yield n d \<in> set (parse_section p unidecode sec pid counter)"
    for sec pid counter n d
  proof -
    from yields_have_fields(1) [OF that]
    have "set (map fst d) = set [''id'', ''parent_id'', ''section_id'', ''section_str_id'',
        ''child_idx'', ''section_title'', ''text'', ''tag'']"
      by simp
    then show ?thesis by (simp only: set_map) auto
  qed
qed

text \<open>
  The theorem on the example page, parsed by \<open>LXMLParser\<close> after one message has been
  logged and after none.
\<close>

theorem tutorial_parser_pure_witness:
  "call LXMLParser example_soup id ''<page>'' [Found_subsection None]
     = (Inr [[[(''id'', JInt 2), (''parent_id'', JInt 0), (''section_id'', JInt 1),
               (''section_str_id'', JStr ''intro''), (''child_idx'', JInt 2),
               (''section_title'', JStr ''Intro#''), (''text'', JStr ''Parse XML''),
               (''tag'', JStr ''p'')],
              [(''id'', JInt 3), (''parent_id'', JInt 0), (''section_id'', JInt 1),
               (''section_str_id'', JStr ''intro''), (''child_idx'', JInt 3),
               (''section_title'', JStr ''Intro#''), (''text'', JStr ''x = 1''),
               (''tag'', JStr ''code'')],
              [(''id'', JInt 4), (''parent_id'', JInt 1), (''section_id'', JInt 3),
               (''section_str_id'', JStr ''steps''), (''child_idx'', JInt 1),
               (''section_title'', JStr ''Steps''),
               (''text'', JStr (''* one'' @ [CHR 0x0A] @ ''* two'')), (''tag'', JStr ''p'')]]],
        [Found_subsection None,
         Parsing_child ''LXML'' 2 (Some ''Intro#'') 0,
         Parsing_child ''LXML'' 3 (Some ''Intro#'') 0,
         Parsing_child ''LXML'' 4 (Some ''Intro#'') 0,
         Parsing_child ''LXML'' 5 (Some ''Intro#'') 0,
         Found_subsection (Some ''Intro#''),
         Parsing_child ''LXML'' 1 (Some ''Steps'') 1])
   \<and> fst (call LXMLParser example_soup id ''<page>'' [])
     = fst (call LXMLParser example_soup id ''<page>'' [Found_subsection None])
   \<and> {''id'', ''parent_id'', ''section_id'', ''section_title'', ''tag'', ''text''}
       \<subseteq> fst ` set [(''id'', JInt 3), (''parent_id'', JInt 0), (''section_id'', JInt 1),
               (''section_str_id'', JStr ''intro''), (''child_idx'', JInt 3),
               (''section_title'', JStr ''Intro#''), (''text'', JStr ''x = 1''),
               (''tag'', JStr ''code'')]"
proof -
  have ev: "call LXMLParser example_soup id ''<page>'' [Found_subsection None]
     = (Inr [[[(''id'', JInt 2), (''parent_id'', JInt 0), (''section_id'', JInt 1),
               (''section_str_id'', JStr ''intro''), (''child_idx'', JInt 2),
               (''section_title'', JStr ''Intro#''), (''text'', JStr ''Parse XML''),
               (''tag'', JStr ''p'')],
              [(''id'', JInt 3), (''parent_id'', JInt 0), (''section_id'', JInt 1),
               (''section_str_id'', JStr ''intro''), (''child_idx'', JInt 3),
               (''section_title'', JStr ''Intro#''), (''text'', JStr ''x = 1''),
               (''tag'', JStr ''code'')],
              [(''id'', JInt 4), (''parent_id'', JInt 1), (''section_id'', JInt 3),
               (''section_str_id'', JStr ''steps''), (''child_idx'', JInt 1),
               (''section_title'', JStr ''Steps''),
               (''text'', JStr (''* one'' @ [CHR 0x0A] @ ''* two'')), (''tag'', JStr ''p'')]]],
        [Found_subsection None,
         Parsing_child ''LXML'' 2 (Some ''Intro#'') 0,
         Parsing_child ''LXML'' 3 (Some ''Intro#'') 0,
         Parsing_child ''LXML'' 4 (Some ''Intro#'') 0,
         Parsing_child ''LXML'' 5 (Some ''Intro#'') 0,
         Found_subsection (Some ''Intro#''),
         Parsing_child ''LXML'' 1 (Some ''Steps'') 1])"
    by code_simp
  note t = tutorial_parser_pure [where p = LXMLParser and BeautifulSoup = example_soup
      and unidecode = id and raw_html = "''<page>''"]
  from t [where logger = "[]" and logger' = "[Found_subsection None]"]
  have 1: "fst (call LXMLParser example_soup id ''<page>'' [])
     = fst (call LXMLParser example_soup id ''<page>'' [Found_subsection None])"
    by blast
  from t [where logger = "[Found_subsection None]"] ev
  have 2: "{''id'', ''parent_id'', ''section_id'', ''section_title'', ''tag'', ''text''}
       \<subseteq> fst ` set [(''id'', JInt 3), (''parent_id'', JInt 0), (''section_id'', JInt 1),
               (''section_str_id'', JStr ''intro''), (''child_idx'', JInt 3),
               (''section_title'', JStr ''Intro#''), (''text'', JStr ''x = 1''),
               (''tag'', JStr ''code'')]"
    by simp
  from ev 1 2 show ?thesis by blast
qed

end
